theory Spec2Isabelle
  imports Main "HOL-Library.AList"
begin

section \<open>Python values and exceptions\<close>

text \<open>
  The settings of \<^verbatim>\<open>settings_object/appsettings.py\<close> are plain Python data: scalars,
  lists, tuples and dictionaries keyed by strings, together with the objects that the
  import machinery and the factories hand back. A dictionary is an association list in
  insertion order (Python dictionaries keep it); a well-formed one has distinct keys.
  \<open>PRef\<close> is a module, class or function known by its qualified name, \<open>PInst\<close> an
  instance with the name of its class and its attributes.
  Strings are byte strings here: case conversion and the regular-expression classes
  \<^verbatim>\<open>\d\<close> and \<^verbatim>\<open>\w\<close> are the ASCII ones.
\<close>

datatype pyval =
    PNone
  | PBool bool
  | PInt int
  | PStr string
  | PList "pyval list"
  | PTuple "pyval list"
  | PDict "(string \<times> pyval) list"
  | PRef string
  | PInst string "(string \<times> pyval) list"

text \<open>
  An exception is its class and its message. \<open>ModuleNotFoundError\<close> is a subclass of
  \<open>ImportError\<close>; \<open>ImproperlyConfigured\<close> is Django's (or the module's own fallback
  class). \<open>OtherError\<close> carries the name of any other class. \<open>NotModelled\<close> marks a
  Python behaviour whose result lies outside the value universe above (a dictionary with
  a key that is not a string); no theorem below concludes anything from it.
\<close>

datatype exc =
    ModuleNotFoundError string
  | ImportError string
  | AttributeError string
  | TypeError string
  | KeyError string
  | ValueError string
  | ImproperlyConfigured string
  | OtherError string string
  | NotModelled string

fun is_ImportError :: "exc \<Rightarrow> bool" where
  "is_ImportError (ModuleNotFoundError _) = True"
| "is_ImportError (ImportError _) = True"
| "is_ImportError _ = False"

fun is_AttributeError :: "exc \<Rightarrow> bool" where
  "is_AttributeError (AttributeError _) = True"
| "is_AttributeError _ = False"

fun is_ImproperlyConfigured :: "exc \<Rightarrow> bool" where
  "is_ImproperlyConfigured (ImproperlyConfigured _) = True"
| "is_ImproperlyConfigured _ = False"

fun type_name :: "pyval \<Rightarrow> string" where
  "type_name PNone = ''NoneType''"
| "type_name (PBool _) = ''bool''"
| "type_name (PInt _) = ''int''"
| "type_name (PStr _) = ''str''"
| "type_name (PList _) = ''list''"
| "type_name (PTuple _) = ''tuple''"
| "type_name (PDict _) = ''dict''"
| "type_name (PRef _) = ''module''"
| "type_name (PInst c _) = c"

section \<open>Strings\<close>

text \<open>\<^verbatim>\<open>s.split(c)\<close> for a one-character separator: never empty, keeps empty segments.\<close>

fun split_on :: "char \<Rightarrow> string \<Rightarrow> string list" where
  "split_on c [] = [[]]"
| "split_on c (x # xs) =
     (if x = c then [] # split_on c xs
      else (case split_on c xs of
              [] \<Rightarrow> [[x]]
            | w # ws \<Rightarrow> (x # w) # ws))"

text \<open>\<^verbatim>\<open>sep.join(parts)\<close>.\<close>

fun join :: "string \<Rightarrow> string list \<Rightarrow> string" where
  "join sep [] = []"
| "join sep [p] = p"
| "join sep (p # q # ps) = p @ sep @ join sep (q # ps)"

definition is_lower :: "char \<Rightarrow> bool" where
  "is_lower c = (let n = (of_char c :: nat) in 97 \<le> n \<and> n \<le> 122)"

definition is_upper :: "char \<Rightarrow> bool" where
  "is_upper c = (let n = (of_char c :: nat) in 65 \<le> n \<and> n \<le> 90)"

definition is_digit :: "char \<Rightarrow> bool" where
  "is_digit c = (let n = (of_char c :: nat) in 48 \<le> n \<and> n \<le> 57)"

text \<open>The class \<^verbatim>\<open>\w\<close>: letters, digits and the underscore.\<close>

definition is_word_char :: "char \<Rightarrow> bool" where
  "is_word_char c = (is_lower c \<or> is_upper c \<or> is_digit c \<or> c = CHR ''_'')"

definition upper_char :: "char \<Rightarrow> char" where
  "upper_char c = (if is_lower c then char_of ((of_char c :: nat) - 32) else c)"

definition lower_char :: "char \<Rightarrow> char" where
  "lower_char c = (if is_upper c then char_of ((of_char c :: nat) + 32) else c)"

text \<open>\<^verbatim>\<open>s.upper()\<close> and \<^verbatim>\<open>s.lower()\<close>.\<close>

definition upper :: "string \<Rightarrow> string" where
  "upper s = map upper_char s"

definition lower :: "string \<Rightarrow> string" where
  "lower s = map lower_char s"

text \<open>\<^verbatim>\<open>str(n)\<close> for a list index: the decimal digits.\<close>

definition digit_char :: "nat \<Rightarrow> char" where
  "digit_char d = char_of (48 + d)"

fun str_nat :: "nat \<Rightarrow> string" where
  "str_nat n = (if n < 10 then [digit_char n] else str_nat (n div 10) @ [digit_char (n mod 10)])"

declare str_nat.simps [simp del]

text \<open>\<^verbatim>\<open>s.startswith(p)\<close> and \<^verbatim>\<open>p in s\<close>.\<close>

definition starts_with :: "string \<Rightarrow> string \<Rightarrow> bool" where
  "starts_with p s = (take (length p) s = p)"

fun contains :: "string \<Rightarrow> string \<Rightarrow> bool" where
  "contains p [] = (p = [])"
| "contains p (c # cs) = (starts_with p (c # cs) \<or> contains p cs)"

text \<open>The quoted form \<^verbatim>\<open>'name'\<close> that the interpreter's messages use.\<close>

definition quoted :: "string \<Rightarrow> string" where
  "quoted s = [CHR 0x27] @ s @ [CHR 0x27]"

section \<open>The host: import machinery, attribute lookup, calls, Django's settings\<close>

text \<open>
  What the module takes from its surroundings is a parameter of the model:
  \<^item> \<open>import_module\<close> is \<^verbatim>\<open>importlib.import_module\<close>: the module object (by name) or
    the exception raised; it never returns \<^verbatim>\<open>None\<close>;
  \<^item> \<open>getattr\<close> is the built-in of that name, with two arguments;
  \<^item> \<open>call_kwargs\<close> is the call \<^verbatim>\<open>f(**kwargs)\<close> of an object with keyword arguments;
  \<^item> \<open>django_settings\<close> is what \<^verbatim>\<open>from django.conf import settings\<close> gives: the
    exception raised, or the attributes of the settings object.
  Each is a function of its arguments only: importing and looking up are repeatable.
\<close>

record py_env =
  import_module :: "string \<Rightarrow> exc + string"
  getattr :: "pyval \<Rightarrow> string \<Rightarrow> exc + pyval"
  call_kwargs :: "pyval \<Rightarrow> (string \<times> pyval) list \<Rightarrow> exc + pyval"
  django_settings :: "exc + (string \<times> pyval) list"

section \<open>\<^verbatim>\<open>import_callable\<close>\<close>

text \<open>
  The loop of \<^verbatim>\<open>import_callable\<close>, with its two local lists as arguments:
  \<^verbatim>\<open>
    while imported_mod is None and module_parts:
        try:
            imported_mod = import_module('.'.join(module_parts))
        except ModuleNotFoundError:
            attribute_parts.insert(0, module_parts.pop())
  \<close>
  It ends with the module found (or \<open>None\<close>) and the attribute parts, or with the first
  exception that is not a \<open>ModuleNotFoundError\<close>.
\<close>

function find_module :: "py_env \<Rightarrow> string list \<Rightarrow> string list \<Rightarrow> exc + (string option \<times> string list)" where
  "find_module env module_parts attribute_parts =
     (if module_parts = [] then Inr (None, attribute_parts)
      else (case import_module env (join ''.'' module_parts) of
              Inr m \<Rightarrow> Inr (Some m, attribute_parts)
            | Inl (ModuleNotFoundError msg) \<Rightarrow>
                find_module env (butlast module_parts) (last module_parts # attribute_parts)
            | Inl e \<Rightarrow> Inl e))"
  by pat_completeness auto
termination
  by (relation "measure (\<lambda>(env, module_parts, attribute_parts). length module_parts)") auto

declare find_module.simps [simp del]

text \<open>\<^verbatim>\<open>reduce(getattr, attribute_parts, obj)\<close>.\<close>

fun reduce_getattr :: "py_env \<Rightarrow> string list \<Rightarrow> pyval \<Rightarrow> exc + pyval" where
  "reduce_getattr env [] obj = Inr obj"
| "reduce_getattr env (a # as) obj =
     (case getattr env obj a of
        Inl e \<Rightarrow> Inl e
      | Inr obj' \<Rightarrow> reduce_getattr env as obj')"

text \<open>
  \<^verbatim>\<open>import_callable(python_path)\<close>. Only a string has the method \<^verbatim>\<open>split\<close>.
\<close>

fun import_callable :: "py_env \<Rightarrow> pyval \<Rightarrow> exc + pyval" where
  "import_callable env (PStr python_path) =
     (case find_module env (split_on CHR ''.'' python_path) [] of
        Inl e \<Rightarrow> Inl e
      | Inr (imported_mod, attribute_parts) \<Rightarrow>
          (case imported_mod of
             None \<Rightarrow>
               (case import_module env python_path of
                  Inl e \<Rightarrow> Inl e
                | Inr _ \<Rightarrow> reduce_getattr env attribute_parts PNone)
           | Some m \<Rightarrow> reduce_getattr env attribute_parts (PRef m)))"
| "import_callable env v =
     Inl (AttributeError (quoted (type_name v) @ '' object has no attribute '' @ quoted ''split''))"

text \<open>The outcome of an import that the loop catches.\<close>

fun module_not_found :: "exc + 'a \<Rightarrow> bool" where
  "module_not_found (Inl (ModuleNotFoundError msg)) = True"
| "module_not_found r = False"

section \<open>Dictionaries\<close>

text \<open>
  \<^verbatim>\<open>d[k] = v\<close>: an existing key keeps its place, a new key goes to the end. A
  dictionary comprehension and \<^verbatim>\<open>d.update(mapping)\<close> store the items one by one.
\<close>

definition dict_setitem :: "(string \<times> 'v) list \<Rightarrow> string \<Rightarrow> 'v \<Rightarrow> (string \<times> 'v) list" where
  "dict_setitem d k v = AList.update k v d"

definition dict_setitems :: "(string \<times> 'v) list \<Rightarrow> (string \<times> 'v) list \<Rightarrow> (string \<times> 'v) list" where
  "dict_setitems d kvs = foldl (\<lambda>acc (k, v). dict_setitem acc k v) d kvs"

definition dict_of_items :: "(string \<times> 'v) list \<Rightarrow> (string \<times> 'v) list" where
  "dict_of_items kvs = dict_setitems [] kvs"

text \<open>\<^verbatim>\<open>d.copy()\<close> gives a new dictionary with the same items.\<close>

definition dict_copy :: "(string \<times> 'v) list \<Rightarrow> (string \<times> 'v) list" where
  "dict_copy d = d"

text \<open>
  \<^verbatim>\<open>d.update(other)\<close>, returning the updated dictionary. A mapping is stored item by
  item; a value that cannot be iterated raises \<open>TypeError\<close>; the protocol for an
  iterable of key/value pairs (whose keys need not be strings) is outside the model.
\<close>

fun dict_update :: "(string \<times> pyval) list \<Rightarrow> pyval \<Rightarrow> exc + (string \<times> pyval) list" where
  "dict_update d (PDict other) = Inr (dict_setitems d other)"
| "dict_update d PNone = Inl (TypeError (quoted ''NoneType'' @ '' object is not iterable''))"
| "dict_update d (PBool b) = Inl (TypeError (quoted ''bool'' @ '' object is not iterable''))"
| "dict_update d (PInt i) = Inl (TypeError (quoted ''int'' @ '' object is not iterable''))"
| "dict_update d other = Inl (NotModelled ''dict.update from an iterable of pairs'')"

text \<open>
  \<^verbatim>\<open>obj[key]\<close> with a string key. Only a dictionary can be subscripted by a string;
  a missing key raises \<open>KeyError\<close>.
\<close>

fun getitem :: "pyval \<Rightarrow> string \<Rightarrow> exc + pyval" where
  "getitem (PDict d) k = (case map_of d k of None \<Rightarrow> Inl (KeyError k) | Some v \<Rightarrow> Inr v)"
| "getitem (PList xs) k = Inl (TypeError ''list indices must be integers or slices, not str'')"
| "getitem (PTuple xs) k = Inl (TypeError ''tuple indices must be integers or slices, not str'')"
| "getitem (PStr s) k = Inl (TypeError ''string indices must be integers'')"
| "getitem v k = Inl (TypeError (quoted (type_name v) @ '' object is not subscriptable''))"

text \<open>\<^verbatim>\<open>obj.items()\<close>: only a dictionary has the method.\<close>

fun dict_items :: "pyval \<Rightarrow> exc + (string \<times> pyval) list" where
  "dict_items (PDict d) = Inr d"
| "dict_items v = Inl (AttributeError (quoted (type_name v) @ '' object has no attribute '' @ quoted ''items''))"

section \<open>\<^verbatim>\<open>SettingsObject\<close> and \<^verbatim>\<open>Setting\<close>\<close>

record SettingsObject =
  name :: string
  user_settings :: pyval


text \<open>
  A callable default is called with positional arguments only: with the owning
  settings object, or with nothing. It has the numbers of positional arguments its
  signature accepts, the message of the \<open>TypeError\<close> that the interpreter raises for
  any other number, and a body.
\<close>

record default_callable =
  accepts_args :: "nat \<Rightarrow> bool"
  arity_error :: "nat \<Rightarrow> string"
  body :: "SettingsObject list \<Rightarrow> exc + pyval"

definition call_positional :: "default_callable \<Rightarrow> SettingsObject list \<Rightarrow> exc + pyval" where
  "call_positional f args =
     (if accepts_args f (length args) then body f args
      else Inl (TypeError (arity_error f (length args))))"

text \<open>
  The built-in \<^verbatim>\<open>dict\<close>, as far as the module uses it: \<^verbatim>\<open>dict()\<close> is the empty
  dictionary, and \<^verbatim>\<open>dict(obj)\<close> with a settings object, which is neither a mapping
  nor iterable, raises \<open>TypeError\<close>. It takes at most one positional argument.
\<close>

definition py_dict :: default_callable where
  "py_dict =
     \<lparr>accepts_args = (\<lambda>n. n \<le> 1),
      arity_error = (\<lambda>n. ''dict expected at most 1 argument, got '' @ str_nat n),
      body = (\<lambda>args. case args of
                [] \<Rightarrow> Inr (PDict [])
              | _ \<Rightarrow> Inl (TypeError (quoted ''SettingsObject'' @ '' object is not iterable'')))\<rparr>"

text \<open>
  The default of a setting: the sentinel \<^verbatim>\<open>Setting.NO_DEFAULT\<close>, a callable, or any
  other value (\<^verbatim>\<open>None\<close> included).
\<close>

datatype default = NO_DEFAULT | Callable default_callable | Value pyval

record Setting =
  setting_name :: string
  setting_default :: default

text \<open>\<^verbatim>\<open>Setting._get_default(self, instance)\<close>.\<close>

definition Setting_get_default :: "'a Setting_scheme \<Rightarrow> SettingsObject \<Rightarrow> exc + pyval" where
  "Setting_get_default s inst =
     (case setting_default s of
        NO_DEFAULT \<Rightarrow>
          Inl (ImproperlyConfigured (''Required setting: '' @ name inst @ ''.'' @ setting_name s))
      | Callable f \<Rightarrow>
          (case call_positional f [inst] of
             Inl (TypeError msg) \<Rightarrow> call_positional f []
           | r \<Rightarrow> r)
      | Value v \<Rightarrow> Inr v)"

text \<open>
  \<^verbatim>\<open>Setting.__get__(self, instance, owner)\<close>; the instance is \<open>None\<close> when the
  setting is read from the class.
\<close>

definition Setting_get :: "'a Setting_scheme \<Rightarrow> SettingsObject option \<Rightarrow> exc + pyval" where
  "Setting_get s instance_opt =
     (case instance_opt of
        None \<Rightarrow> Inl (TypeError ''Settings cannot be accessed as class attributes'')
      | Some inst \<Rightarrow>
          (case getitem (user_settings inst) (setting_name s) of
             Inl (KeyError k) \<Rightarrow> Setting_get_default s inst
           | r \<Rightarrow> r))"

text \<open>\<^verbatim>\<open>Setting.__set__(self, instance, value)\<close>.\<close>

definition Setting_set :: "'a Setting_scheme \<Rightarrow> SettingsObject option \<Rightarrow> pyval \<Rightarrow> exc + unit" where
  "Setting_set s instance_opt v = Inl (AttributeError ''Settings are read-only'')"

section \<open>\<^verbatim>\<open>MergedDictSetting\<close>, \<^verbatim>\<open>NestedSetting\<close>, \<^verbatim>\<open>ImportStringSetting\<close>\<close>

record MergedDictSetting = Setting +
  defaults :: "(string \<times> pyval) list"

definition MergedDictSetting_init :: "string \<Rightarrow> (string \<times> pyval) list \<Rightarrow> MergedDictSetting" where
  "MergedDictSetting_init nm dflts =
     \<lparr>setting_name = nm, setting_default = Callable py_dict, defaults = dflts\<rparr>"

definition MergedDictSetting_get :: "MergedDictSetting \<Rightarrow> SettingsObject option \<Rightarrow> exc + pyval" where
  "MergedDictSetting_get s instance_opt =
     (let merged = dict_copy (defaults s) in
      case Setting_get s instance_opt of
        Inl e \<Rightarrow> Inl e
      | Inr other \<Rightarrow>
          (case dict_update merged other of
             Inl e \<Rightarrow> Inl e
           | Inr merged' \<Rightarrow> Inr (PDict merged')))"




definition ImportStringSetting_get :: "py_env \<Rightarrow> Setting \<Rightarrow> SettingsObject option \<Rightarrow> exc + pyval" where
  "ImportStringSetting_get env s instance_opt =
     (case Setting_get s instance_opt of
        Inl e \<Rightarrow> Inl e
      | Inr v \<Rightarrow> import_callable env v)"

section \<open>\<^verbatim>\<open>ObjectFactorySetting\<close>\<close>

text \<open>
  The three patterns of the class, as matchers over the message of a \<open>TypeError\<close>:
  \<^verbatim>\<open>
    MISSING_ARG_REGEX = r"missing \d+ required positional arguments?: "
    INVALID_ARG_MATCH = "got an unexpected keyword argument"
    ARG_NAME_REGEX = r"'(\w+)'"
  \<close>
  \<open>match_MISSING_ARG_REGEX\<close> matches the first pattern at the start of a string: the
  greedy \<^verbatim>\<open>\d+\<close> is followed by a space, so it takes every digit; \<open>search\<close> tries
  every position, as \<^verbatim>\<open>re.search\<close> does.
\<close>

definition strip_prefix :: "string \<Rightarrow> string \<Rightarrow> string option" where
  "strip_prefix p s = (if starts_with p s then Some (drop (length p) s) else None)"

definition match_MISSING_ARG_REGEX :: "string \<Rightarrow> bool" where
  "match_MISSING_ARG_REGEX s =
     (case strip_prefix ''missing '' s of
        None \<Rightarrow> False
      | Some r \<Rightarrow>
          takeWhile is_digit r \<noteq> [] \<and>
          (case strip_prefix '' required positional argument'' (dropWhile is_digit r) of
             None \<Rightarrow> False
           | Some r' \<Rightarrow> starts_with ''s: '' r' \<or> starts_with '': '' r'))"

fun search_MISSING_ARG_REGEX :: "string \<Rightarrow> bool" where
  "search_MISSING_ARG_REGEX [] = match_MISSING_ARG_REGEX []"
| "search_MISSING_ARG_REGEX (c # cs) =
     (match_MISSING_ARG_REGEX (c # cs) \<or> search_MISSING_ARG_REGEX cs)"

definition INVALID_ARG_MATCH :: string where
  "INVALID_ARG_MATCH = ''got an unexpected keyword argument''"

text \<open>
  \<^verbatim>\<open>re.findall(ARG_NAME_REGEX, s)\<close>: the groups of the matches that do not overlap,
  from left to right. A match is a quote, the longest run of word characters (not
  empty) and a quote; the search goes on after the closing quote. \<^verbatim>\<open>re.search\<close>
  finds the first of these matches, or \<^verbatim>\<open>None\<close>.
\<close>

function findall_ARG_NAME_REGEX :: "string \<Rightarrow> string list" where
  "findall_ARG_NAME_REGEX [] = []"
| "findall_ARG_NAME_REGEX (c # cs) =
     (if c = CHR 0x27 \<and> takeWhile is_word_char cs \<noteq> []
         \<and> starts_with [CHR 0x27] (dropWhile is_word_char cs)
      then takeWhile is_word_char cs # findall_ARG_NAME_REGEX (tl (dropWhile is_word_char cs))
      else findall_ARG_NAME_REGEX cs)"
  by pat_completeness auto
termination
proof (relation "measure length")
  show "wf (measure length)" by simp
next
  fix c :: char and cs :: string
  have "length (tl (dropWhile is_word_char cs)) \<le> length cs"
    using length_dropWhile_le [of is_word_char cs] by simp
  then show "(tl (dropWhile is_word_char cs), c # cs) \<in> measure length" by simp
next
  fix c :: char and cs :: string
  show "(cs, c # cs) \<in> measure length" by simp
qed

definition search_ARG_NAME_REGEX :: "string \<Rightarrow> string option" where
  "search_ARG_NAME_REGEX s = (case findall_ARG_NAME_REGEX s of [] \<Rightarrow> None | n # _ \<Rightarrow> Some n)"

text \<open>
  The call of the factory and its \<^verbatim>\<open>except TypeError\<close> handler:
  \<^verbatim>\<open>
    try:
        return factory(**kwargs)
    except TypeError as exc:
        message = str(exc)
        if re.search(self.MISSING_ARG_REGEX, message): ...
        elif self.INVALID_ARG_MATCH in message: ...
        else: raise
  \<close>
  \<^verbatim>\<open>match.group(1)\<close> on a search without a match is an attribute access on \<^verbatim>\<open>None\<close>.
\<close>

definition invoke_factory :: "py_env \<Rightarrow> pyval \<Rightarrow> (string \<times> pyval) list \<Rightarrow> string \<Rightarrow> exc + pyval" where
  "invoke_factory env factory kwargs prefix =
     (case call_kwargs env factory kwargs of
        Inl (TypeError message) \<Rightarrow>
          (if search_MISSING_ARG_REGEX message then
             Inl (ImproperlyConfigured (''Required setting(s): '' @
               join '', '' (map (\<lambda>n. prefix @ ''.PARAMS.'' @ upper n) (findall_ARG_NAME_REGEX message))))
           else if contains INVALID_ARG_MATCH message then
             (case search_ARG_NAME_REGEX message of
                None \<Rightarrow> Inl (AttributeError (quoted ''NoneType'' @ '' object has no attribute '' @ quoted ''group''))
              | Some n \<Rightarrow> Inl (ImproperlyConfigured (''Invalid setting: '' @ prefix @ ''.PARAMS.'' @ upper n)))
           else Inl (TypeError message))
      | r \<Rightarrow> r)"

text \<open>
  The elements of a comprehension are computed in order, and the first exception ends
  it: the first \<open>Inl\<close> of the list of results, or all the values.
\<close>

fun sequence_results :: "('e + 'a) list \<Rightarrow> 'e + 'a list" where
  "sequence_results [] = Inr []"
| "sequence_results (r # rs) =
     (case r of
        Inl e \<Rightarrow> Inl e
      | Inr x \<Rightarrow> (case sequence_results rs of Inl e \<Rightarrow> Inl e | Inr xs \<Rightarrow> Inr (x # xs)))"

text \<open>\<^verbatim>\<open>ObjectFactorySetting._process_item(self, item, prefix)\<close>.\<close>

function process_item :: "py_env \<Rightarrow> pyval \<Rightarrow> string \<Rightarrow> exc + pyval" where
  "process_item env (PDict item) prefix =
     (case map_of item ''FACTORY'' of
        Some fpath \<Rightarrow>
          (case import_callable env fpath of
             Inl e \<Rightarrow> Inl e
           | Inr factory \<Rightarrow>
               (case dict_items (case map_of item ''PARAMS'' of None \<Rightarrow> PDict [] | Some p \<Rightarrow> p) of
                  Inl e \<Rightarrow> Inl e
                | Inr params \<Rightarrow>
                    (case sequence_results
                            (map (\<lambda>(k, v). case process_item env v (prefix @ ''.PARAMS.'' @ k) of
                                              Inl e \<Rightarrow> Inl e
                                            | Inr v' \<Rightarrow> Inr (lower k, v'))
                                 params) of
                       Inl e \<Rightarrow> Inl e
                     | Inr kvs \<Rightarrow> invoke_factory env factory (dict_of_items kvs) prefix)))
      | None \<Rightarrow>
          (case sequence_results
                  (map (\<lambda>(k, v). case process_item env v (prefix @ ''.'' @ k) of
                                    Inl e \<Rightarrow> Inl e
                                  | Inr v' \<Rightarrow> Inr (k, v'))
                       item) of
             Inl e \<Rightarrow> Inl e
           | Inr kvs \<Rightarrow> Inr (PDict (dict_of_items kvs))))"
| "process_item env (PList xs) prefix =
     (case sequence_results
             (map (\<lambda>(i, v). process_item env v (prefix @ ''['' @ str_nat i @ '']''))
                  (enumerate 0 xs)) of
        Inl e \<Rightarrow> Inl e
      | Inr ys \<Rightarrow> Inr (PList ys))"
| "process_item env (PTuple xs) prefix =
     (case sequence_results
             (map (\<lambda>(i, v). process_item env v (prefix @ ''['' @ str_nat i @ '']''))
                  (enumerate 0 xs)) of
        Inl e \<Rightarrow> Inl e
      | Inr ys \<Rightarrow> Inr (PList ys))"
| "process_item env PNone prefix = Inr PNone"
| "process_item env (PBool b) prefix = Inr (PBool b)"
| "process_item env (PInt i) prefix = Inr (PInt i)"
| "process_item env (PStr s) prefix = Inr (PStr s)"
| "process_item env (PRef r) prefix = Inr (PRef r)"
| "process_item env (PInst c attrs) prefix = Inr (PInst c attrs)"
  by pat_completeness auto
termination
proof -
  have in_dict: "size v < Suc (size_list (size_prod (\<lambda>x. 0) size) d)"
    if "(k, v) \<in> set d" for k :: string and v :: pyval and d
    using that by (induction d) auto
  have in_list: "size v < Suc (size_list size xs)"
    if "(i, v) \<in> set (enumerate n xs)" for i n :: nat and v :: pyval and xs
  proof -
    from that have "v \<in> set xs" by (auto simp: in_set_enumerate_eq)
    then show ?thesis by (induction xs) auto
  qed
  have in_params: "size v < Suc (size_list (size_prod (\<lambda>x. 0) size) d)"
    if "dict_items (case map_of d ''PARAMS'' of None \<Rightarrow> PDict [] | Some p \<Rightarrow> p) = Inr ps"
      and "(k, v) \<in> set ps" for k :: string and v :: pyval and d ps
  proof (cases "map_of d ''PARAMS''")
    case None
    with that show ?thesis by simp
  next
    case (Some p)
    with that have p: "p = PDict ps" by (cases p) auto
    from Some have "(''PARAMS'', p) \<in> set d" by (rule map_of_SomeD)
    then have "size p < Suc (size_list (size_prod (\<lambda>x. 0) size) d)" by (rule in_dict)
    moreover from that(2) have "size v < size p" using in_dict [of k v ps] by (simp add: p)
    ultimately show ?thesis by simp
  qed
  show ?thesis
    by (relation "measure (\<lambda>(env, v, prefix). size v)")
       (auto intro: in_dict in_list in_params)
qed

declare process_item.simps [simp del]

text \<open>\<^verbatim>\<open>ObjectFactorySetting.__get__(self, instance, owner)\<close>.\<close>

definition ObjectFactorySetting_get :: "py_env \<Rightarrow> Setting \<Rightarrow> SettingsObject option \<Rightarrow> exc + pyval" where
  "ObjectFactorySetting_get env s instance_opt =
     (case Setting_get s instance_opt of
        Inl e \<Rightarrow> Inl e
      | Inr v \<Rightarrow>
          (case instance_opt of
             None \<Rightarrow> Inl (AttributeError (quoted ''NoneType'' @ '' object has no attribute '' @ quoted ''name''))
           | Some inst \<Rightarrow> process_item env v (name inst @ ''.'' @ setting_name s)))"



text \<open>
  What \<^verbatim>\<open>_process_item\<close> makes of data without factories: every tuple becomes a list,
  at any depth of lists, tuples and dictionary values. Such data is \<open>plain_data\<close>: no
  dictionary in it has the key \<^verbatim>\<open>FACTORY\<close>, and its dictionaries are well formed.
\<close>

fun tuples_to_lists :: "pyval \<Rightarrow> pyval" where
  "tuples_to_lists (PList xs) = PList (map tuples_to_lists xs)"
| "tuples_to_lists (PTuple xs) = PList (map tuples_to_lists xs)"
| "tuples_to_lists (PDict d) = PDict (map (\<lambda>(k, v). (k, tuples_to_lists v)) d)"
| "tuples_to_lists v = v"

fun plain_data :: "pyval \<Rightarrow> bool" where
  "plain_data (PList xs) = (\<forall>x \<in> set xs. plain_data x)"
| "plain_data (PTuple xs) = (\<forall>x \<in> set xs. plain_data x)"
| "plain_data (PDict d) =
     (map_of d ''FACTORY'' = None \<and> distinct (map fst d) \<and> (\<forall>(k, v) \<in> set d. plain_data v))"
| "plain_data v = True"

section \<open>Functions defined with \<^verbatim>\<open>def\<close>\<close>

text \<open>
  The interpreter's binding of keyword arguments for a function whose parameters are
  all positional-or-keyword, with the messages of the \<open>TypeError\<close>s that the patterns
  of \<open>ObjectFactorySetting\<close> are written against. A parameter has a name and may have
  a default; \<open>def_var_kw\<close> says that the function also takes \<^verbatim>\<open>**kwargs\<close>. The first
  keyword that names no parameter is refused before the missing arguments are counted.
\<close>

record pydef =
  def_name :: string
  def_params :: "(string \<times> bool) list"
  def_var_kw :: bool
  def_body :: "(string \<times> pyval) list \<Rightarrow> exc + pyval"

fun format_missing :: "string list \<Rightarrow> string" where
  "format_missing [] = []"
| "format_missing [a] = quoted a"
| "format_missing [a, b] = quoted a @ '' and '' @ quoted b"
| "format_missing names =
     join '', '' (map quoted (butlast names)) @ '', and '' @ quoted (last names)"

definition missing_args :: "pydef \<Rightarrow> (string \<times> pyval) list \<Rightarrow> string list" where
  "missing_args f kwargs =
     filter (\<lambda>p. p \<notin> set (map fst kwargs))
            (map fst (filter (\<lambda>(p, has_default). \<not> has_default) (def_params f)))"

definition unexpected_args :: "pydef \<Rightarrow> (string \<times> pyval) list \<Rightarrow> string list" where
  "unexpected_args f kwargs =
     (if def_var_kw f then []
      else filter (\<lambda>k. k \<notin> set (map fst (def_params f))) (map fst kwargs))"

definition def_call :: "pydef \<Rightarrow> (string \<times> pyval) list \<Rightarrow> exc + pyval" where
  "def_call f kwargs =
     (case unexpected_args f kwargs of
        k # ks \<Rightarrow>
          Inl (TypeError (def_name f @ ''() got an unexpected keyword argument '' @ quoted k))
      | [] \<Rightarrow>
          (case missing_args f kwargs of
             [] \<Rightarrow> def_body f kwargs
           | m # ms \<Rightarrow>
               Inl (TypeError (def_name f @ ''() missing '' @ str_nat (length (m # ms))
                      @ '' required positional argument'' @ (if ms = [] then [] else ''s'')
                      @ '': '' @ format_missing (m # ms)))))"

text \<open>
  A word is what \<^verbatim>\<open>\w+\<close> matches as a whole. The names of a function and of its
  parameters contain neither a quote nor a space, and a parameter name is a word; the
  messages of such a function are the ones the patterns expect.
\<close>

definition is_word :: "string \<Rightarrow> bool" where
  "is_word w = (w \<noteq> [] \<and> (\<forall>c \<in> set w. is_word_char c))"

definition well_named :: "pydef \<Rightarrow> bool" where
  "well_named f =
     (CHR 0x27 \<notin> set (def_name f) \<and> CHR '' '' \<notin> set (def_name f)
      \<and> (\<forall>p \<in> set (map fst (def_params f)). is_word p))"

section \<open>An example host\<close>

text \<open>
  A package \<^verbatim>\<open>pkg\<close> with a module \<^verbatim>\<open>pkg.mod\<close> that defines
  \<^verbatim>\<open>
    def make(port, host='localhost'): ...
    def Serializer(fmt='json'): ...
    def Cache(serializer, size=100): ...
    class Class:
        @staticmethod
        def method(): ...
  \<close>
  Each function returns an instance that keeps its keyword arguments.
\<close>

definition example_defs :: "(string \<times> pydef) list" where
  "example_defs =
     [(''pkg.mod.make'',
         \<lparr>def_name = ''make'', def_params = [(''port'', False), (''host'', True)],
          def_var_kw = False, def_body = (\<lambda>kwargs. Inr (PInst ''Connection'' kwargs))\<rparr>),
      (''pkg.mod.Serializer'',
         \<lparr>def_name = ''Serializer'', def_params = [(''fmt'', True)],
          def_var_kw = False, def_body = (\<lambda>kwargs. Inr (PInst ''Serializer'' kwargs))\<rparr>),
      (''pkg.mod.Cache'',
         \<lparr>def_name = ''Cache'', def_params = [(''serializer'', False), (''size'', True)],
          def_var_kw = False, def_body = (\<lambda>kwargs. Inr (PInst ''Cache'' kwargs))\<rparr>),
      (''pkg.mod.Class.method'',
         \<lparr>def_name = ''Class.method'', def_params = [],
          def_var_kw = False, def_body = (\<lambda>kwargs. Inr PNone)\<rparr>)]"

definition example_attrs :: "(string \<times> string list) list" where
  "example_attrs =
     [(''pkg'', [''mod'']),
      (''pkg.mod'', [''make'', ''Serializer'', ''Cache'', ''Class'']),
      (''pkg.mod.Class'', [''method''])]"

definition example_env :: py_env where
  "example_env =
     \<lparr>import_module = (\<lambda>n. if n = [] then Inl (ValueError ''Empty module name'')
                            else if n = ''pkg'' \<or> n = ''pkg.mod'' then Inr n
                            else Inl (ModuleNotFoundError (''No module named '' @ quoted n))),
      getattr = (\<lambda>obj a. case obj of
                   PRef r \<Rightarrow>
                     (case map_of example_attrs r of
                        Some as \<Rightarrow> (if a \<in> set as then Inr (PRef (r @ ''.'' @ a))
                                   else Inl (AttributeError (quoted r @ '' has no attribute '' @ quoted a)))
                      | None \<Rightarrow> Inl (AttributeError (quoted r @ '' has no attribute '' @ quoted a)))
                 | v \<Rightarrow> Inl (AttributeError (quoted (type_name v) @ '' object has no attribute '' @ quoted a))),
      call_kwargs = (\<lambda>f kwargs. case f of
                   PRef r \<Rightarrow>
                     (case map_of example_defs r of
                        Some d \<Rightarrow> def_call d kwargs
                      | None \<Rightarrow> Inl (TypeError (quoted ''module'' @ '' object is not callable'')))
                 | v \<Rightarrow> Inl (TypeError (quoted (type_name v) @ '' object is not callable''))),
      django_settings = Inr []\<rparr>"

text \<open>
  Two callable defaults, \<^verbatim>\<open>lambda owner: owner.name + '-default'\<close> and
  \<^verbatim>\<open>lambda owner: owner + 1\<close>, and a settings object.
\<close>

definition owner_name_default :: default_callable where
  "owner_name_default =
     \<lparr>accepts_args = (\<lambda>n. n = 1),
      arity_error = (\<lambda>n. ''<lambda>() missing 1 required positional argument: '' @ quoted ''owner''),
      body = (\<lambda>args. case args of
                [owner] \<Rightarrow> Inr (PStr (name owner @ ''-default''))
              | _ \<Rightarrow> Inl (OtherError ''SystemError'' ''unreachable''))\<rparr>"

definition failing_default :: default_callable where
  "failing_default =
     \<lparr>accepts_args = (\<lambda>n. n = 1),
      arity_error = (\<lambda>n. ''<lambda>() missing 1 required positional argument: '' @ quoted ''owner''),
      body = (\<lambda>args. Inl (TypeError (''unsupported operand type(s) for +: '' @ quoted ''SettingsObject''
                         @ '' and '' @ quoted ''int'')))\<rparr>"

definition example_owner :: SettingsObject where
  "example_owner = \<lparr>name = ''ROOT'', user_settings = PDict [(''SUB'', PDict [(''X'', PInt 1)])]\<rparr>"

text \<open>Two factory specifications, one inside the other.\<close>

definition serializer_spec :: pyval where
  "serializer_spec =
     PDict [(''FACTORY'', PStr ''pkg.mod.Serializer''), (''PARAMS'', PDict [(''FMT'', PStr ''yaml'')])]"


text \<open>
  The same cache with its parameter key in lower case and a serializer whose factory
  lacks its required argument; and a specification whose parameter key is no Python
  identifier.
\<close>

definition broken_cache_spec :: pyval where
  "broken_cache_spec =
     PDict [(''FACTORY'', PStr ''pkg.mod.Cache''),
            (''PARAMS'', PDict [(''serializer'', PDict [(''FACTORY'', PStr ''pkg.mod.make'')])])]"

definition hyphen_spec :: pyval where
  "hyphen_spec =
     PDict [(''FACTORY'', PStr ''pkg.mod.Serializer''), (''PARAMS'', PDict [(''MY-PARAM'', PInt 1)])]"

section \<open>Dictionaries as objects\<close>










section \<open>Properties of strings\<close>

lemma split_on_not_Nil: "split_on c s \<noteq> []"
  by (induction s) (auto split: list.splits)

lemma join_Cons: "ps \<noteq> [] \<Longrightarrow> join sep (p # ps) = p @ sep @ join sep ps"
  by (cases ps) auto

lemma join_split_on: "join [c] (split_on c s) = s"
proof (induction s)
  case Nil
  show ?case by simp
next
  case (Cons x xs)
  show ?case
  proof (cases "x = c")
    case True
    with Cons show ?thesis by (simp add: join_Cons split_on_not_Nil)
  next
    case False
    obtain w ws where sp: "split_on c xs = w # ws"
      using split_on_not_Nil [of c xs] by (cases "split_on c xs") auto
    with Cons have "join [c] (w # ws) = xs" by simp
    then have "join [c] ((x # w) # ws) = x # xs" by (cases ws) auto
    with False sp show ?thesis by simp
  qed
qed

section \<open>The dotted-path resolver\<close>

lemma module_not_foundE:
  "module_not_found r \<Longrightarrow> \<exists>msg. r = Inl (ModuleNotFoundError msg)"
  by (cases r rule: module_not_found.cases) auto

lemma find_module_found:
  "0 < k \<Longrightarrow> k \<le> length mp \<Longrightarrow>
   import_module env (join ''.'' (take k mp)) = Inr m \<Longrightarrow>
   (\<forall>j. k < j \<and> j \<le> length mp \<longrightarrow> module_not_found (import_module env (join ''.'' (take j mp)))) \<Longrightarrow>
   find_module env mp ap = Inr (Some m, drop k mp @ ap)"
proof (induction mp arbitrary: ap rule: rev_induct)
  case Nil
  then show ?case by simp
next
  case (snoc x xs)
  show ?case
  proof (cases "k = length (xs @ [x])")
    case True
    with snoc.prems(3) have "import_module env (join ''.'' (xs @ [x])) = Inr m" by simp
    with True show ?thesis by (simp add: find_module.simps [of env "xs @ [x]"])
  next
    case False
    with snoc.prems(2) have k: "k \<le> length xs" by simp
    from snoc.prems(4) False snoc.prems(2)
    have "module_not_found (import_module env (join ''.'' (xs @ [x])))"
      by (metis le_neq_implies_less order_refl take_all)
    then obtain msg where mnf: "import_module env (join ''.'' (xs @ [x])) = Inl (ModuleNotFoundError msg)"
      by (auto dest: module_not_foundE)
    have "find_module env xs (x # ap) = Inr (Some m, drop k xs @ x # ap)"
    proof (rule snoc.IH [OF snoc.prems(1) k])
      show "import_module env (join ''.'' (take k xs)) = Inr m"
        using snoc.prems(3) k by simp
      show "\<forall>j. k < j \<and> j \<le> length xs \<longrightarrow> module_not_found (import_module env (join ''.'' (take j xs)))"
        using snoc.prems(4) by (auto simp: take_append)
    qed
    with mnf k show ?thesis by (simp add: find_module.simps [of env "xs @ [x]"])
  qed
qed

lemma find_module_none:
  "(\<forall>j. 0 < j \<and> j \<le> length mp \<longrightarrow> module_not_found (import_module env (join ''.'' (take j mp)))) \<Longrightarrow>
   find_module env mp ap = Inr (None, mp @ ap)"
proof (induction mp arbitrary: ap rule: rev_induct)
  case Nil
  then show ?case by (simp add: find_module.simps)
next
  case (snoc x xs)
  from snoc.prems have "module_not_found (import_module env (join ''.'' (xs @ [x])))"
    by (metis length_greater_0_conv order_refl snoc_eq_iff_butlast take_all)
  then obtain msg where mnf: "import_module env (join ''.'' (xs @ [x])) = Inl (ModuleNotFoundError msg)"
    by (auto dest: module_not_foundE)
  have "find_module env xs (x # ap) = Inr (None, xs @ x # ap)"
  proof (rule snoc.IH)
    show "\<forall>j. 0 < j \<and> j \<le> length xs \<longrightarrow> module_not_found (import_module env (join ''.'' (take j xs)))"
      using snoc.prems by (auto simp: take_append)
  qed
  with mnf show ?case by (simp add: find_module.simps [of env "xs @ [x]"])
qed

lemma reduce_getattr_append:
  "reduce_getattr env (as @ bs) obj =
     (case reduce_getattr env as obj of Inl e \<Rightarrow> Inl e | Inr ob \<Rightarrow> reduce_getattr env bs ob)"
  by (induction as arbitrary: obj) (auto split: sum.splits)

text \<open>
  Claim C1. For a path string, with \<open>parts\<close> its segments between the dots:
  \<^item> when the prefix of \<open>k\<close> segments is importable and every longer prefix fails
    with \<open>ModuleNotFoundError\<close>, the result is the attribute lookup of the other
    segments from the imported module;
  \<^item> when every prefix fails with \<open>ModuleNotFoundError\<close>, the import of the whole
    path is attempted again and its error, of class \<open>ImportError\<close>, is raised;
  \<^item> the attributes are looked up from left to right, each on the result of the one
    before, and the first lookup that fails (an \<open>AttributeError\<close> when the attribute is
    missing) ends the resolution with its exception.
\<close>

theorem import_callable_resolves:
  assumes parts: "parts = split_on CHR ''.'' python_path"
  shows
   "(0 < k \<and> k \<le> length parts
       \<and> import_module env (join ''.'' (take k parts)) = Inr m
       \<and> (\<forall>j. k < j \<and> j \<le> length parts \<longrightarrow>
              module_not_found (import_module env (join ''.'' (take j parts))))
     \<longrightarrow> import_callable env (PStr python_path) = reduce_getattr env (drop k parts) (PRef m))
    \<and> ((\<forall>j. 0 < j \<and> j \<le> length parts \<longrightarrow>
              module_not_found (import_module env (join ''.'' (take j parts))))
     \<longrightarrow> (\<exists>e. import_module env python_path = Inl e \<and> is_ImportError e
              \<and> import_callable env (PStr python_path) = Inl e))
    \<and> reduce_getattr env (as @ [a]) obj =
         (case reduce_getattr env as obj of Inl e \<Rightarrow> Inl e | Inr ob \<Rightarrow> getattr env ob a)
    \<and> (reduce_getattr env as obj = Inr ob \<and> getattr env ob a = Inl e
     \<longrightarrow> reduce_getattr env (as @ a # rest) obj = Inl e)"
proof (intro conjI impI)
  assume "0 < k \<and> k \<le> length parts
       \<and> import_module env (join ''.'' (take k parts)) = Inr m
       \<and> (\<forall>j. k < j \<and> j \<le> length parts \<longrightarrow>
              module_not_found (import_module env (join ''.'' (take j parts))))"
  then have "find_module env parts [] = Inr (Some m, drop k parts @ [])"
    by (intro find_module_found) auto
  then show "import_callable env (PStr python_path) = reduce_getattr env (drop k parts) (PRef m)"
    by (simp add: parts)
next
  assume none: "\<forall>j. 0 < j \<and> j \<le> length parts \<longrightarrow>
              module_not_found (import_module env (join ''.'' (take j parts)))"
  then have fm: "find_module env parts [] = Inr (None, parts @ [])"
    by (rule find_module_none)
  have "parts \<noteq> []" by (simp add: parts split_on_not_Nil)
  with none have "module_not_found (import_module env (join ''.'' (take (length parts) parts)))"
    by (metis length_greater_0_conv order_refl)
  then have "module_not_found (import_module env python_path)"
    using join_split_on [of "CHR ''.''" python_path] by (simp add: parts)
  then obtain msg where "import_module env python_path = Inl (ModuleNotFoundError msg)"
    by (auto dest: module_not_foundE)
  with fm show "\<exists>e. import_module env python_path = Inl e \<and> is_ImportError e
              \<and> import_callable env (PStr python_path) = Inl e"
    by (simp add: parts)
next
  show "reduce_getattr env (as @ [a]) obj =
         (case reduce_getattr env as obj of Inl e \<Rightarrow> Inl e | Inr ob \<Rightarrow> getattr env ob a)"
    by (simp add: reduce_getattr_append split: sum.splits)
next
  assume "reduce_getattr env as obj = Inr ob \<and> getattr env ob a = Inl e"
  then show "reduce_getattr env (as @ a # rest) obj = Inl e"
    by (simp add: reduce_getattr_append)
qed

lemma example_parts:
  "split_on CHR ''.'' ''pkg.mod.Class.method'' = [''pkg'', ''mod'', ''Class'', ''method'']"
  "split_on CHR ''.'' ''pkg.mod.Class.nope'' = [''pkg'', ''mod'', ''Class'', ''nope'']"
  "split_on CHR ''.'' ''nope.mod'' = [''nope'', ''mod'']"
  by simp_all

theorem import_callable_resolves_witness:
  "import_callable example_env (PStr ''pkg.mod.Class.method'') = Inr (PRef ''pkg.mod.Class.method'')
   \<and> import_callable example_env (PStr ''nope.mod'')
       = Inl (ModuleNotFoundError (''No module named '' @ quoted ''nope.mod''))
   \<and> import_callable example_env (PStr ''pkg.mod.Class.nope'')
       = Inl (AttributeError (quoted ''pkg.mod.Class'' @ '' has no attribute '' @ quoted ''nope''))"
proof -
  let ?parts = "[''pkg'', ''mod'', ''Class'', ''method'']"
  let ?parts' = "[''pkg'', ''mod'', ''Class'', ''nope'']"
  have imp: "import_module example_env (join ''.'' (take 2 ?parts)) = Inr ''pkg.mod''"
    and imp': "import_module example_env (join ''.'' (take 2 ?parts')) = Inr ''pkg.mod''"
    by (simp_all add: example_env_def)
  have later: "\<forall>j. 2 < j \<and> j \<le> length ?parts \<longrightarrow>
      module_not_found (import_module example_env (join ''.'' (take j ?parts)))"
  proof (intro allI impI)
    fix j :: nat
    assume "2 < j \<and> j \<le> length ?parts"
    then have "j = 3 \<or> j = 4" by auto
    then show "module_not_found (import_module example_env (join ''.'' (take j ?parts)))"
      by (auto simp: example_env_def)
  qed
  have later': "\<forall>j. 2 < j \<and> j \<le> length ?parts' \<longrightarrow>
      module_not_found (import_module example_env (join ''.'' (take j ?parts')))"
  proof (intro allI impI)
    fix j :: nat
    assume "2 < j \<and> j \<le> length ?parts'"
    then have "j = 3 \<or> j = 4" by auto
    then show "module_not_found (import_module example_env (join ''.'' (take j ?parts')))"
      by (auto simp: example_env_def)
  qed
  have never: "\<forall>j. 0 < j \<and> j \<le> length [''nope'', ''mod''] \<longrightarrow>
      module_not_found (import_module example_env (join ''.'' (take j [''nope'', ''mod''])))"
  proof (intro allI impI)
    fix j :: nat
    assume "0 < j \<and> j \<le> length [''nope'', ''mod'']"
    then have "j = 1 \<or> j = 2" by auto
    then show "module_not_found (import_module example_env (join ''.'' (take j [''nope'', ''mod''])))"
      by (auto simp: example_env_def)
  qed
  have found: "import_callable example_env (PStr ''pkg.mod.Class.method'')
      = reduce_getattr example_env (drop 2 ?parts) (PRef ''pkg.mod'')"
    using import_callable_resolves [OF example_parts(1) [symmetric], of 2 example_env "''pkg.mod''"]
      imp later by simp
  have r1: "import_callable example_env (PStr ''pkg.mod.Class.method'') = Inr (PRef ''pkg.mod.Class.method'')"
    unfolding found by (simp add: example_env_def example_attrs_def)
  have "\<exists>e. import_module example_env ''nope.mod'' = Inl e \<and> is_ImportError e
      \<and> import_callable example_env (PStr ''nope.mod'') = Inl e"
    using import_callable_resolves [OF example_parts(3) [symmetric], of 2 example_env] never by blast
  then have r2: "import_callable example_env (PStr ''nope.mod'')
       = Inl (ModuleNotFoundError (''No module named '' @ quoted ''nope.mod''))"
    by (auto simp: example_env_def)
  have found': "import_callable example_env (PStr ''pkg.mod.Class.nope'')
      = reduce_getattr example_env (drop 2 ?parts') (PRef ''pkg.mod'')"
    using import_callable_resolves [OF example_parts(2) [symmetric], of 2 example_env "''pkg.mod''"]
      imp' later' by simp
  have "reduce_getattr example_env [''Class''] (PRef ''pkg.mod'') = Inr (PRef ''pkg.mod.Class'')
      \<and> getattr example_env (PRef ''pkg.mod.Class'') ''nope''
         = Inl (AttributeError (quoted ''pkg.mod.Class'' @ '' has no attribute '' @ quoted ''nope''))"
    by (simp add: example_env_def example_attrs_def)
  then have "reduce_getattr example_env ([''Class''] @ ''nope'' # []) (PRef ''pkg.mod'')
      = Inl (AttributeError (quoted ''pkg.mod.Class'' @ '' has no attribute '' @ quoted ''nope''))"
    using import_callable_resolves [OF example_parts(1) [symmetric], of _ example_env _
        "[''Class'']" "''nope''" "PRef ''pkg.mod''" "PRef ''pkg.mod.Class''" _ "[]"]
    by blast
  then have r3: "import_callable example_env (PStr ''pkg.mod.Class.nope'')
       = Inl (AttributeError (quoted ''pkg.mod.Class'' @ '' has no attribute '' @ quoted ''nope''))"
    unfolding found' by simp
  from r1 r2 r3 show ?thesis by blast
qed

section \<open>Settings\<close>

lemma Setting_get_absent:
  "user_settings inst = PDict d \<Longrightarrow> map_of d (setting_name s) = None \<Longrightarrow>
   Setting_get s (Some inst) = Setting_get_default s inst"
  by (simp add: Setting_get_def)

lemma Setting_get_present:
  "user_settings inst = PDict d \<Longrightarrow> map_of d (setting_name s) = Some v \<Longrightarrow>
   Setting_get s (Some inst) = Inr v"
  by (simp add: Setting_get_def)

lemma Setting_get_default_py_dict:
  "setting_default s = Callable py_dict \<Longrightarrow> Setting_get_default s inst = Inr (PDict [])"
  by (simp add: Setting_get_default_def call_positional_def py_dict_def)

lemma map_of_dict_setitem: "map_of (dict_setitem d k v) = (map_of d)(k \<mapsto> v)"
  by (simp add: dict_setitem_def update_conv')

lemma map_of_dict_setitems:
  "distinct (map fst u) \<Longrightarrow> map_of (dict_setitems d u) = map_of d ++ map_of u"
proof (induction u arbitrary: d)
  case Nil
  show ?case by (simp add: dict_setitems_def)
next
  case (Cons kv u)
  obtain k v where kv: "kv = (k, v)" by (cases kv)
  from Cons.prems kv have k: "k \<notin> dom (map_of u)" and d: "distinct (map fst u)"
    by (auto simp: dom_map_of_conv_image_fst)
  have "map_of (dict_setitems d (kv # u)) = map_of (dict_setitems (dict_setitem d k v) u)"
    by (simp add: dict_setitems_def kv)
  also have "\<dots> = map_of (dict_setitem d k v) ++ map_of u"
    by (rule Cons.IH [OF d])
  also have "\<dots> = (map_of d)(k \<mapsto> v) ++ map_of u"
    by (simp only: map_of_dict_setitem)
  also have "\<dots> = map_of d ++ map_of (kv # u)"
    using k by (auto simp: kv map_add_def fun_eq_iff split: option.splits)
  finally show ?case .
qed

lemma distinct_dict_setitems:
  "distinct (map fst d) \<Longrightarrow> distinct (map fst (dict_setitems d u))"
proof (induction u arbitrary: d)
  case Nil
  then show ?case by (simp add: dict_setitems_def)
next
  case (Cons kv u)
  obtain k v where kv: "kv = (k, v)" by (cases kv)
  have "distinct (map fst (dict_setitem d k v))"
    using Cons.prems by (simp add: dict_setitem_def distinct_update)
  then have "distinct (map fst (dict_setitems (dict_setitem d k v) u))"
    by (rule Cons.IH)
  then show ?case by (simp add: dict_setitems_def kv)
qed

lemma starts_with_append: "starts_with p (p @ b)"
  by (simp add: starts_with_def)

lemma contains_append: "contains p (a @ p @ b)"
proof (induction a)
  case Nil
  show ?case
  proof (cases "p @ b")
    case Nil
    then show ?thesis by simp
  next
    case (Cons c cs)
    have "starts_with p (p @ b)" by (rule starts_with_append)
    with Cons show ?thesis by simp
  qed
next
  case (Cons x a)
  then show ?case by simp
qed

text \<open>
  Claim C4. When the key of a setting is absent from the raw mapping of its owner:
  \<^item> without a default, the access raises \<open>ImproperlyConfigured\<close> with the message
    \<^verbatim>\<open>Required setting: <owner name>.<setting name>\<close>, which contains the dotted name;
  \<^item> with a default that is a plain value, that value is the result; \<^verbatim>\<open>None\<close> is such
    a value and is returned, not taken for a missing default;
  \<^item> among the settings whose default is not a callable, the access raises if and only
    if there is no default;
  \<^item> with a callable default the outcome is that of a call of the callable, so the
    setting does not raise its own error.
\<close>

theorem Setting_get_required_or_default:
  assumes "user_settings inst = PDict d" and "map_of d (setting_name s) = None"
  shows
   "(setting_default s = NO_DEFAULT \<longrightarrow>
       Setting_get s (Some inst)
         = Inl (ImproperlyConfigured (''Required setting: '' @ name inst @ ''.'' @ setting_name s)))
    \<and> contains (name inst @ ''.'' @ setting_name s)
         (''Required setting: '' @ name inst @ ''.'' @ setting_name s)
    \<and> (setting_default s = Value v \<longrightarrow> Setting_get s (Some inst) = Inr v)
    \<and> (setting_default s = Value PNone \<longrightarrow> Setting_get s (Some inst) = Inr PNone)
    \<and> ((\<forall>f. setting_default s \<noteq> Callable f) \<longrightarrow>
         ((\<exists>e. Setting_get s (Some inst) = Inl e) \<longleftrightarrow> setting_default s = NO_DEFAULT))
    \<and> (setting_default s = Callable f \<longrightarrow>
         Setting_get s (Some inst) = call_positional f [inst]
         \<or> Setting_get s (Some inst) = call_positional f [])"
proof -
  have get: "Setting_get s (Some inst) = Setting_get_default s inst"
    using assms by (rule Setting_get_absent)
  have c: "contains (name inst @ ''.'' @ setting_name s)
         (''Required setting: '' @ (name inst @ ''.'' @ setting_name s) @ [])"
    by (rule contains_append)
  have "(\<forall>f. setting_default s \<noteq> Callable f) \<longrightarrow>
         ((\<exists>e. Setting_get s (Some inst) = Inl e) \<longleftrightarrow> setting_default s = NO_DEFAULT)"
    unfolding get by (cases "setting_default s") (auto simp: Setting_get_default_def)
  moreover have "setting_default s = Callable f \<longrightarrow>
         Setting_get s (Some inst) = call_positional f [inst]
         \<or> Setting_get s (Some inst) = call_positional f []"
    unfolding get by (auto simp: Setting_get_default_def split: sum.splits exc.splits)
  ultimately show ?thesis
    using c by (simp add: get Setting_get_default_def)
qed

theorem Setting_get_required_or_default_witness:
  "Setting_get \<lparr>setting_name = ''HOST'', setting_default = NO_DEFAULT\<rparr> (Some example_owner)
     = Inl (ImproperlyConfigured ''Required setting: ROOT.HOST'')
   \<and> contains ''ROOT.HOST'' ''Required setting: ROOT.HOST''
   \<and> Setting_get \<lparr>setting_name = ''HOST'', setting_default = Value (PStr ''localhost'')\<rparr> (Some example_owner)
     = Inr (PStr ''localhost'')
   \<and> Setting_get \<lparr>setting_name = ''HOST'', setting_default = Value PNone\<rparr> (Some example_owner)
     = Inr PNone
   \<and> (Setting_get \<lparr>setting_name = ''HOST'', setting_default = Callable owner_name_default\<rparr> (Some example_owner)
         = call_positional owner_name_default [example_owner]
       \<or> Setting_get \<lparr>setting_name = ''HOST'', setting_default = Callable owner_name_default\<rparr> (Some example_owner)
         = call_positional owner_name_default [])"
proof -
  have us: "user_settings example_owner = PDict [(''SUB'', PDict [(''X'', PInt 1)])]"
    by (simp add: example_owner_def)
  have nm: "name example_owner = ''ROOT''"
    by (simp add: example_owner_def)
  have a: "map_of [(''SUB'', PDict [(''X'', PInt 1)])]
      (setting_name \<lparr>setting_name = ''HOST'', setting_default = dflt\<rparr>) = None" for dflt
    by simp
  show ?thesis
    using Setting_get_required_or_default [OF us a, of NO_DEFAULT]
      Setting_get_required_or_default [OF us a, of "Value (PStr ''localhost'')" "PStr ''localhost''"]
      Setting_get_required_or_default [OF us a, of "Value PNone"]
      Setting_get_required_or_default [OF us a, of "Callable owner_name_default" _ owner_name_default]
    by (simp add: nm)
qed

text \<open>
  Claim C5, as the code has it. When the key is absent and the default is a callable,
  the callable is called with the owning settings object first. A value it returns is
  the result; an exception that is not a \<open>TypeError\<close> is raised as it is; and the call
  without arguments is made exactly when the first call raised a \<open>TypeError\<close>, whatever
  its cause. A callable that does not take one positional argument is one such case.
\<close>

theorem Setting_get_default_callable:
  assumes "user_settings inst = PDict d" and "map_of d (setting_name s) = None"
    and "setting_default s = Callable f"
  shows
   "(call_positional f [inst] = Inr v \<longrightarrow> Setting_get s (Some inst) = Inr v)
    \<and> (call_positional f [inst] = Inl (TypeError msg) \<longrightarrow>
         Setting_get s (Some inst) = call_positional f [])
    \<and> (call_positional f [inst] = Inl e \<and> (\<forall>m. e \<noteq> TypeError m) \<longrightarrow>
         Setting_get s (Some inst) = Inl e)
    \<and> (\<not> accepts_args f 1 \<longrightarrow> Setting_get s (Some inst) = call_positional f [])"
proof -
  have get: "Setting_get s (Some inst) = Setting_get_default s inst"
    using assms(1,2) by (rule Setting_get_absent)
  have "\<not> accepts_args f 1 \<longrightarrow> call_positional f [inst] = Inl (TypeError (arity_error f 1))"
    by (simp add: call_positional_def)
  then show ?thesis
    unfolding get using assms(3)
    by (cases e) (auto simp: Setting_get_default_def)
qed

theorem Setting_get_default_callable_witness:
  "Setting_get \<lparr>setting_name = ''HOST'', setting_default = Callable owner_name_default\<rparr> (Some example_owner)
     = Inr (PStr ''ROOT-default'')
   \<and> Setting_get \<lparr>setting_name = ''HOST'', setting_default = Callable py_dict\<rparr> (Some example_owner)
     = Inr (PDict [])"
proof -
  have us: "user_settings example_owner = PDict [(''SUB'', PDict [(''X'', PInt 1)])]"
    by (simp add: example_owner_def)
  have a: "map_of [(''SUB'', PDict [(''X'', PInt 1)])]
      (setting_name \<lparr>setting_name = ''HOST'', setting_default = dflt\<rparr>) = None" for dflt
    by simp
  have c1: "call_positional owner_name_default [example_owner] = Inr (PStr ''ROOT-default'')"
    by (simp add: call_positional_def owner_name_default_def example_owner_def)
  have c2: "call_positional py_dict [example_owner]
      = Inl (TypeError (quoted ''SettingsObject'' @ '' object is not iterable''))"
    by (simp add: call_positional_def py_dict_def)
  have c3: "call_positional py_dict [] = Inr (PDict [])"
    by (simp add: call_positional_def py_dict_def)
  have "Setting_get \<lparr>setting_name = ''HOST'', setting_default = Callable owner_name_default\<rparr> (Some example_owner)
     = Inr (PStr ''ROOT-default'')"
    using Setting_get_default_callable [OF us a, of "Callable owner_name_default" owner_name_default] c1
    by simp
  moreover have "Setting_get \<lparr>setting_name = ''HOST'', setting_default = Callable py_dict\<rparr> (Some example_owner)
     = call_positional py_dict []"
    using Setting_get_default_callable [OF us a, of "Callable py_dict" py_dict] c2
    by simp
  ultimately show ?thesis using c3 by simp
qed

text \<open>
  The claim as the specification words it, that only a failure of arity leads to the
  call without arguments, does not hold. The built-in \<^verbatim>\<open>dict\<close> takes one positional
  argument; called with the settings object it raises a \<open>TypeError\<close> because the object
  cannot be iterated, and the access still goes on to \<^verbatim>\<open>dict()\<close>. A function of one
  argument whose body raises a \<open>TypeError\<close> is called again without arguments, and
  the error of that second call is what the caller sees.
\<close>

theorem Setting_get_default_retry_counterexample:
  "accepts_args py_dict 1
   \<and> call_positional py_dict [example_owner]
       = Inl (TypeError (quoted ''SettingsObject'' @ '' object is not iterable''))
   \<and> Setting_get_default \<lparr>setting_name = ''HOST'', setting_default = Callable py_dict\<rparr> example_owner
       = Inr (PDict [])
   \<and> accepts_args failing_default 1
   \<and> call_positional failing_default [example_owner]
       = Inl (TypeError (''unsupported operand type(s) for +: '' @ quoted ''SettingsObject''
                         @ '' and '' @ quoted ''int''))
   \<and> Setting_get_default \<lparr>setting_name = ''HOST'', setting_default = Callable failing_default\<rparr> example_owner
       = Inl (TypeError (''<lambda>() missing 1 required positional argument: '' @ quoted ''owner''))"
  by (simp add: py_dict_def failing_default_def call_positional_def Setting_get_default_def)

text \<open>
  Claim C7. For a \<open>MergedDictSetting\<close> with declared defaults \<open>dflts\<close> on an owner whose
  raw mapping holds the dictionary \<open>u\<close> under the name of the setting, the result is a
  dictionary that maps every key of \<open>u\<close> to its value in \<open>u\<close> and every other key as
  \<open>dflts\<close> does; its keys are distinct when those of \<open>dflts\<close> are. When the key is
  absent, the result is the declared defaults.
\<close>

theorem MergedDictSetting_get_overlay:
  assumes "user_settings inst = PDict d" and "distinct (map fst u)"
  shows
   "(map_of d nm = Some (PDict u) \<longrightarrow>
       (\<exists>m. MergedDictSetting_get (MergedDictSetting_init nm dflts) (Some inst) = Inr (PDict m)
          \<and> map_of m = map_of dflts ++ map_of u
          \<and> (distinct (map fst dflts) \<longrightarrow> distinct (map fst m))))
    \<and> (map_of d nm = None \<longrightarrow>
         MergedDictSetting_get (MergedDictSetting_init nm dflts) (Some inst) = Inr (PDict dflts))"
proof (intro conjI impI)
  assume "map_of d nm = Some (PDict u)"
  with assms(1) have "Setting_get (MergedDictSetting_init nm dflts) (Some inst) = Inr (PDict u)"
    by (intro Setting_get_present) (simp_all add: MergedDictSetting_init_def)
  then have "MergedDictSetting_get (MergedDictSetting_init nm dflts) (Some inst)
      = Inr (PDict (dict_setitems dflts u))"
    by (simp add: MergedDictSetting_get_def MergedDictSetting_init_def dict_copy_def)
  then show "\<exists>m. MergedDictSetting_get (MergedDictSetting_init nm dflts) (Some inst) = Inr (PDict m)
          \<and> map_of m = map_of dflts ++ map_of u
          \<and> (distinct (map fst dflts) \<longrightarrow> distinct (map fst m))"
    using map_of_dict_setitems [OF assms(2)] distinct_dict_setitems by blast
next
  assume "map_of d nm = None"
  with assms(1) have "Setting_get (MergedDictSetting_init nm dflts) (Some inst)
      = Setting_get_default (MergedDictSetting_init nm dflts) inst"
    by (intro Setting_get_absent) (simp_all add: MergedDictSetting_init_def)
  also have "\<dots> = Inr (PDict [])"
    by (rule Setting_get_default_py_dict) (simp add: MergedDictSetting_init_def)
  finally show "MergedDictSetting_get (MergedDictSetting_init nm dflts) (Some inst) = Inr (PDict dflts)"
    by (simp add: MergedDictSetting_get_def MergedDictSetting_init_def dict_copy_def dict_setitems_def)
qed

theorem MergedDictSetting_get_overlay_witness:
  "(\<exists>m. MergedDictSetting_get (MergedDictSetting_init ''OPTS'' [(''A'', PInt 1), (''B'', PInt 2)])
           (Some \<lparr>name = ''CFG'', user_settings = PDict [(''OPTS'', PDict [(''B'', PInt 3), (''C'', PInt 4)])]\<rparr>)
         = Inr (PDict m)
       \<and> map_of m ''A'' = Some (PInt 1) \<and> map_of m ''B'' = Some (PInt 3)
       \<and> map_of m ''C'' = Some (PInt 4) \<and> map_of m ''D'' = None \<and> distinct (map fst m))
   \<and> MergedDictSetting_get (MergedDictSetting_init ''OPTS'' [(''A'', PInt 1), (''B'', PInt 2)])
           (Some \<lparr>name = ''CFG'', user_settings = PDict [(''OPTS'', PDict [(''B'', PInt 3), (''C'', PInt 4)])]\<rparr>)
         = Inr (PDict [(''A'', PInt 1), (''B'', PInt 3), (''C'', PInt 4)])
   \<and> MergedDictSetting_get (MergedDictSetting_init ''OPTS'' [(''A'', PInt 1), (''B'', PInt 2)])
           (Some \<lparr>name = ''CFG'', user_settings = PDict []\<rparr>)
         = Inr (PDict [(''A'', PInt 1), (''B'', PInt 2)])"
proof -
  let ?dflts = "[(''A'', PInt 1), (''B'', PInt 2)]"
  let ?u = "[(''B'', PInt 3), (''C'', PInt 4)]"
  let ?inst = "\<lparr>name = ''CFG'', user_settings = PDict [(''OPTS'', PDict ?u)]\<rparr>"
  let ?bare = "\<lparr>name = ''CFG'', user_settings = PDict []\<rparr>"
  have du: "distinct (map fst ?u)" by simp
  have "\<exists>m. MergedDictSetting_get (MergedDictSetting_init ''OPTS'' ?dflts) (Some ?inst) = Inr (PDict m)
          \<and> map_of m = map_of ?dflts ++ map_of ?u
          \<and> (distinct (map fst ?dflts) \<longrightarrow> distinct (map fst m))"
    using MergedDictSetting_get_overlay [of ?inst "[(''OPTS'', PDict ?u)]" ?u "''OPTS''" ?dflts] du
    by simp
  then obtain m where m: "MergedDictSetting_get (MergedDictSetting_init ''OPTS'' ?dflts) (Some ?inst) = Inr (PDict m)"
    and mm: "map_of m = map_of ?dflts ++ map_of ?u" and dm: "distinct (map fst m)"
    by auto
  have "map_of m ''A'' = Some (PInt 1) \<and> map_of m ''B'' = Some (PInt 3)
       \<and> map_of m ''C'' = Some (PInt 4) \<and> map_of m ''D'' = None"
    by (simp add: mm map_add_def)
  with m dm have first: "\<exists>m. MergedDictSetting_get (MergedDictSetting_init ''OPTS'' ?dflts) (Some ?inst) = Inr (PDict m)
       \<and> map_of m ''A'' = Some (PInt 1) \<and> map_of m ''B'' = Some (PInt 3)
       \<and> map_of m ''C'' = Some (PInt 4) \<and> map_of m ''D'' = None \<and> distinct (map fst m)"
    by blast
  have second: "MergedDictSetting_get (MergedDictSetting_init ''OPTS'' ?dflts) (Some ?inst)
         = Inr (PDict [(''A'', PInt 1), (''B'', PInt 3), (''C'', PInt 4)])"
    by (simp add: MergedDictSetting_get_def MergedDictSetting_init_def Setting_get_def
        dict_copy_def dict_setitems_def dict_setitem_def)
  have third: "MergedDictSetting_get (MergedDictSetting_init ''OPTS'' ?dflts) (Some ?bare)
         = Inr (PDict ?dflts)"
    using MergedDictSetting_get_overlay [of ?bare "[]" "[]" "''OPTS''" ?dflts] by simp
  from first second third show ?thesis by blast
qed




section \<open>Object factories\<close>

lemma sequence_results_Inr_iff:
  "sequence_results (map f xs) = Inr ys \<longleftrightarrow> list_all2 (\<lambda>x y. f x = Inr y) xs ys"
proof
  show "sequence_results (map f xs) = Inr ys \<Longrightarrow> list_all2 (\<lambda>x y. f x = Inr y) xs ys"
    by (induction xs arbitrary: ys) (auto split: sum.splits)
  show "list_all2 (\<lambda>x y. f x = Inr y) xs ys \<Longrightarrow> sequence_results (map f xs) = Inr ys"
    by (induction rule: list_all2_induct) auto
qed

lemma sequence_results_Inl_iff:
  "sequence_results (map f xs) = Inl e \<longleftrightarrow>
     (\<exists>i<length xs. f (xs ! i) = Inl e \<and> (\<forall>j<i. \<exists>y. f (xs ! j) = Inr y))"
proof (induction xs)
  case Nil
  show ?case by simp
next
  case (Cons x xs)
  show ?case
  proof (cases "f x")
    case (Inl e')
    have "(\<exists>i<length (x # xs). f ((x # xs) ! i) = Inl e \<and> (\<forall>j<i. \<exists>y. f ((x # xs) ! j) = Inr y))
        \<longleftrightarrow> e' = e"
    proof
      assume "\<exists>i<length (x # xs). f ((x # xs) ! i) = Inl e \<and> (\<forall>j<i. \<exists>y. f ((x # xs) ! j) = Inr y)"
      then obtain i where i: "f ((x # xs) ! i) = Inl e" "\<forall>j<i. \<exists>y. f ((x # xs) ! j) = Inr y"
        by blast
      have "i = 0"
      proof (rule ccontr)
        assume "i \<noteq> 0"
        with i(2) have "\<exists>y. f ((x # xs) ! 0) = Inr y" by blast
        with Inl show False by simp
      qed
      with i(1) Inl show "e' = e" by simp
    next
      assume "e' = e"
      with Inl show "\<exists>i<length (x # xs). f ((x # xs) ! i) = Inl e \<and> (\<forall>j<i. \<exists>y. f ((x # xs) ! j) = Inr y)"
        by (intro exI [of _ 0]) simp
    qed
    with Inl show ?thesis by auto
  next
    case (Inr y)
    have "(\<exists>i<length (x # xs). f ((x # xs) ! i) = Inl e \<and> (\<forall>j<i. \<exists>y. f ((x # xs) ! j) = Inr y))
        \<longleftrightarrow> (\<exists>i<length xs. f (xs ! i) = Inl e \<and> (\<forall>j<i. \<exists>y. f (xs ! j) = Inr y))"
      (is "?L \<longleftrightarrow> ?R")
    proof
      assume ?L
      then obtain i where i: "i < length (x # xs)" "f ((x # xs) ! i) = Inl e"
        "\<forall>j<i. \<exists>y. f ((x # xs) ! j) = Inr y" by blast
      with Inr obtain i' where i': "i = Suc i'" by (cases i) auto
      have "\<forall>j<i'. \<exists>y. f (xs ! j) = Inr y"
      proof (intro allI impI)
        fix j assume "j < i'"
        then have "Suc j < i" by (simp add: i')
        with i(3) have "\<exists>y. f ((x # xs) ! Suc j) = Inr y" by blast
        then show "\<exists>y. f (xs ! j) = Inr y" by simp
      qed
      with i i' show ?R by (intro exI [of _ i']) simp
    next
      assume ?R
      then obtain i where i: "i < length xs" "f (xs ! i) = Inl e"
        "\<forall>j<i. \<exists>y. f (xs ! j) = Inr y" by blast
      have "\<forall>j<Suc i. \<exists>y. f ((x # xs) ! j) = Inr y"
      proof (intro allI impI)
        fix j assume "j < Suc i"
        then show "\<exists>y. f ((x # xs) ! j) = Inr y"
          using Inr i(3) by (cases j) auto
      qed
      with i show ?L by (intro exI [of _ "Suc i"]) simp
    qed
    with Inr Cons.IH show ?thesis by (auto split: sum.splits)
  qed
qed

lemma process_item_sequence:
  "process_item env (PList xs) prefix = Inr r \<longleftrightarrow>
     (\<exists>ys. r = PList ys \<and> length ys = length xs
        \<and> (\<forall>i<length xs. process_item env (xs ! i) (prefix @ ''['' @ str_nat i @ '']'') = Inr (ys ! i)))"
proof -
  let ?f = "\<lambda>(i, v). process_item env v (prefix @ ''['' @ str_nat i @ '']'')"
  have "process_item env (PList xs) prefix = Inr r \<longleftrightarrow>
      (\<exists>ys. r = PList ys \<and> sequence_results (map ?f (enumerate 0 xs)) = Inr ys)"
    by (auto simp: process_item.simps split: sum.splits)
  also have "\<dots> \<longleftrightarrow> (\<exists>ys. r = PList ys \<and> list_all2 (\<lambda>x y. ?f x = Inr y) (enumerate 0 xs) ys)"
    by (simp only: sequence_results_Inr_iff)
  also have "\<dots> \<longleftrightarrow> (\<exists>ys. r = PList ys \<and> length ys = length xs
        \<and> (\<forall>i<length xs. process_item env (xs ! i) (prefix @ ''['' @ str_nat i @ '']'') = Inr (ys ! i)))"
    by (auto simp: list_all2_conv_all_nth nth_enumerate_eq)
  finally show ?thesis .
qed

lemma process_item_tuple: "process_item env (PTuple xs) prefix = process_item env (PList xs) prefix"
  by (simp add: process_item.simps)


lemma tagged_results:
  "list_all2 (\<lambda>x y. (case x of (k, v) \<Rightarrow> (case g k v of Inl e \<Rightarrow> Inl e | Inr v' \<Rightarrow> Inr (t k, v'))) = Inr y) ps kvs
   \<longleftrightarrow> (\<exists>vals. list_all2 (\<lambda>(k, v) v'. g k v = Inr v') ps vals \<and> kvs = zip (map (t \<circ> fst) ps) vals)"
proof (induction ps arbitrary: kvs)
  case Nil
  show ?case by auto
next
  case (Cons p ps)
  obtain k v where p: "p = (k, v)" by (cases p)
  show ?case
    by (auto simp: p list_all2_Cons1 Cons.IH split: sum.splits)
qed

lemma process_item_factory:
  assumes "map_of item ''FACTORY'' = Some fpath" and "import_callable env fpath = Inr factory"
    and "map_of item ''PARAMS'' = Some (PDict params)"
  shows "process_item env (PDict item) prefix =
     (case sequence_results
             (map (\<lambda>(k, v). case process_item env v (prefix @ ''.PARAMS.'' @ k) of
                               Inl e \<Rightarrow> Inl e
                             | Inr v' \<Rightarrow> Inr (lower k, v'))
                  params) of
        Inl e \<Rightarrow> Inl e
      | Inr kvs \<Rightarrow> invoke_factory env factory (dict_of_items kvs) prefix)"
  using assms by (simp add: process_item.simps)

lemma process_item_factory_Inr:
  assumes "map_of item ''FACTORY'' = Some fpath" and "import_callable env fpath = Inr factory"
    and "map_of item ''PARAMS'' = Some (PDict params)"
  shows "process_item env (PDict item) prefix = Inr r \<longleftrightarrow>
     (\<exists>vals. list_all2 (\<lambda>(k, v) v'. process_item env v (prefix @ ''.PARAMS.'' @ k) = Inr v') params vals
        \<and> invoke_factory env factory (dict_of_items (zip (map (lower \<circ> fst) params) vals)) prefix = Inr r)"
proof -
  let ?F = "\<lambda>(k, v). case process_item env v (prefix @ ''.PARAMS.'' @ k) of
                        Inl e \<Rightarrow> Inl e
                      | Inr v' \<Rightarrow> Inr (lower k, v')"
  have "process_item env (PDict item) prefix = Inr r \<longleftrightarrow>
      (\<exists>kvs. sequence_results (map ?F params) = Inr kvs
         \<and> invoke_factory env factory (dict_of_items kvs) prefix = Inr r)"
    unfolding process_item_factory [OF assms]
    by (cases "sequence_results (map ?F params)") simp_all
  also have "\<dots> \<longleftrightarrow> (\<exists>kvs. list_all2 (\<lambda>x y. ?F x = Inr y) params kvs
         \<and> invoke_factory env factory (dict_of_items kvs) prefix = Inr r)"
    by (simp only: sequence_results_Inr_iff)
  also have "\<dots> \<longleftrightarrow> (\<exists>kvs. (\<exists>vals. list_all2 (\<lambda>(k, v) v'. process_item env v (prefix @ ''.PARAMS.'' @ k) = Inr v') params vals
            \<and> kvs = zip (map (lower \<circ> fst) params) vals)
         \<and> invoke_factory env factory (dict_of_items kvs) prefix = Inr r)"
    by (simp only: tagged_results [where g = "\<lambda>k v. process_item env v (prefix @ ''.PARAMS.'' @ k)" and t = lower])
  also have "\<dots> \<longleftrightarrow> (\<exists>vals. list_all2 (\<lambda>(k, v) v'. process_item env v (prefix @ ''.PARAMS.'' @ k) = Inr v') params vals
        \<and> invoke_factory env factory (dict_of_items (zip (map (lower \<circ> fst) params) vals)) prefix = Inr r)"
    by blast
  finally show ?thesis .
qed


lemma process_item_factory_Inl:
  assumes "map_of item ''FACTORY'' = Some fpath" and "import_callable env fpath = Inr factory"
    and "map_of item ''PARAMS'' = Some (PDict params)"
    and "i < length params"
    and "\<forall>j<i. \<exists>x. process_item env (snd (params ! j)) (prefix @ ''.PARAMS.'' @ fst (params ! j)) = Inr x"
    and "process_item env (snd (params ! i)) (prefix @ ''.PARAMS.'' @ fst (params ! i)) = Inl e"
  shows "process_item env (PDict item) prefix = Inl e"
proof -
  let ?F = "\<lambda>(k, v). case process_item env v (prefix @ ''.PARAMS.'' @ k) of
                        Inl e \<Rightarrow> Inl e
                      | Inr v' \<Rightarrow> Inr (lower k, v')"
  have "?F (params ! i) = Inl e"
    using assms(6) by (cases "params ! i") simp
  moreover have "\<forall>j<i. \<exists>y. ?F (params ! j) = Inr y"
  proof (intro allI impI)
    fix j assume "j < i"
    with assms(5) obtain x where
      "process_item env (snd (params ! j)) (prefix @ ''.PARAMS.'' @ fst (params ! j)) = Inr x"
      by blast
    then show "\<exists>y. ?F (params ! j) = Inr y" by (cases "params ! j") simp
  qed
  ultimately have "sequence_results (map ?F params) = Inl e"
    using assms(4) unfolding sequence_results_Inl_iff by blast
  then show ?thesis
    unfolding process_item_factory [OF assms(1-3)] by simp
qed

lemma invoke_factory_Inr:
  "invoke_factory env factory kwargs prefix = Inr r \<longleftrightarrow> call_kwargs env factory kwargs = Inr r"
  by (auto simp: invoke_factory_def split: sum.splits exc.splits option.splits if_splits)

lemma keys_dict_setitems:
  "fst ` set (dict_setitems d kvs) = fst ` set d \<union> fst ` set kvs"
proof (induction kvs arbitrary: d)
  case Nil
  show ?case by (simp add: dict_setitems_def)
next
  case (Cons kv kvs)
  obtain k v where kv: "kv = (k, v)" by (cases kv)
  have "fst ` set (dict_setitem d k v) = insert k (fst ` set d)"
    by (simp add: dict_setitem_def dom_update)
  moreover have "dict_setitems d (kv # kvs) = dict_setitems (dict_setitem d k v) kvs"
    by (simp add: dict_setitems_def kv)
  ultimately show ?case using Cons.IH [of "dict_setitem d k v"] by (auto simp: kv)
qed

lemma dict_setitems_distinct:
  "distinct (map fst kvs) \<Longrightarrow> fst ` set d \<inter> fst ` set kvs = {} \<Longrightarrow>
   dict_setitems d kvs = d @ kvs"
proof (induction kvs arbitrary: d)
  case Nil
  show ?case by (simp add: dict_setitems_def)
next
  case (Cons kv kvs)
  obtain k v where kv: "kv = (k, v)" by (cases kv)
  from Cons.prems kv have k: "k \<notin> fst ` set d" by auto
  then have upd: "dict_setitem d k v = d @ [(k, v)]"
    by (induction d) (auto simp: dict_setitem_def)
  have "dict_setitems d (kv # kvs) = dict_setitems (d @ [(k, v)]) kvs"
    by (simp add: dict_setitems_def kv upd)
  also have "\<dots> = (d @ [(k, v)]) @ kvs"
    using Cons.prems kv by (intro Cons.IH) auto
  finally show ?case by (simp add: kv)
qed

lemma dict_of_items_distinct: "distinct (map fst kvs) \<Longrightarrow> dict_of_items kvs = kvs"
  using dict_setitems_distinct [of kvs "[]"] by (simp add: dict_of_items_def)

lemma process_item_plain_dict:
  assumes "map_of d ''FACTORY'' = None" and "distinct (map fst d)"
    and "\<And>k v. (k, v) \<in> set d \<Longrightarrow> process_item env v (prefix @ ''.'' @ k) = Inr (h v)"
  shows "process_item env (PDict d) prefix = Inr (PDict (map (\<lambda>(k, v). (k, h v)) d))"
proof -
  let ?F = "\<lambda>(k, v). case process_item env v (prefix @ ''.'' @ k) of
                        Inl e \<Rightarrow> Inl e
                      | Inr v' \<Rightarrow> Inr (k, v')"
  have "list_all2 (\<lambda>x y. ?F x = Inr y) d (map (\<lambda>(k, v). (k, h v)) d)"
    using assms(3) by (auto simp: list_all2_map2 intro!: list_all2_same [THEN iffD2])
  then have "sequence_results (map ?F d) = Inr (map (\<lambda>(k, v). (k, h v)) d)"
    by (simp only: sequence_results_Inr_iff)
  moreover have keys: "map fst (map (\<lambda>(k, v). (k, h v)) d) = map fst d"
    by (induction d) auto
  have "dict_of_items (map (\<lambda>(k, v). (k, h v)) d) = map (\<lambda>(k, v). (k, h v)) d"
    by (rule dict_of_items_distinct) (simp only: keys assms(2))
  ultimately show ?thesis
    using assms(1) by (simp add: process_item.simps)
qed

lemma process_item_plain_data:
  "plain_data v \<Longrightarrow> process_item env v prefix = Inr (tuples_to_lists v)"
proof (induction v arbitrary: prefix)
  case (PList xs)
  have "process_item env (PList xs) prefix = Inr (PList (map tuples_to_lists xs))"
    unfolding process_item_sequence using PList by auto
  then show ?case by simp
next
  case (PTuple xs)
  have "process_item env (PList xs) prefix = Inr (PList (map tuples_to_lists xs))"
    unfolding process_item_sequence using PTuple by auto
  then show ?case by (simp add: process_item_tuple)
next
  case (PDict d)
  have "process_item env (PDict d) prefix = Inr (PDict (map (\<lambda>(k, v). (k, tuples_to_lists v)) d))"
  proof (rule process_item_plain_dict)
    show "map_of d ''FACTORY'' = None" "distinct (map fst d)" using PDict.prems by simp_all
    fix k v assume kv: "(k, v) \<in> set d"
    with PDict.prems have "plain_data v" by auto
    with kv show "process_item env v (prefix @ ''.'' @ k) = Inr (tuples_to_lists v)"
      by (intro PDict.IH [of "(k, v)"]) auto
  qed
  then show ?case by simp
qed (simp_all add: process_item.simps)



lemma example_imports:
  "import_callable example_env (PStr ''pkg.mod.Cache'') = Inr (PRef ''pkg.mod.Cache'')"
  "import_callable example_env (PStr ''pkg.mod.Serializer'') = Inr (PRef ''pkg.mod.Serializer'')"
  "import_callable example_env (PStr ''pkg.mod.make'') = Inr (PRef ''pkg.mod.make'')"
  by code_simp+

lemma example_serializer:
  "process_item example_env serializer_spec prefix = Inr (PInst ''Serializer'' [(''fmt'', PStr ''yaml'')])"
proof -
  have "invoke_factory example_env (PRef ''pkg.mod.Serializer'')
          (dict_of_items (zip (map (lower \<circ> fst) [(''FMT'', PStr ''yaml'')]) [PStr ''yaml''])) prefix
        = Inr (PInst ''Serializer'' [(''fmt'', PStr ''yaml'')])"
    unfolding invoke_factory_Inr by code_simp
  moreover have "process_item example_env (PStr ''yaml'') (prefix @ ''.PARAMS.'' @ ''FMT'') = Inr (PStr ''yaml'')"
    by (simp add: process_item.simps)
  ultimately show ?thesis
    unfolding serializer_spec_def
    using process_item_factory_Inr [of "[(''FACTORY'', PStr ''pkg.mod.Serializer''), (''PARAMS'', PDict [(''FMT'', PStr ''yaml'')])]"
        "PStr ''pkg.mod.Serializer''" example_env "PRef ''pkg.mod.Serializer''" "[(''FMT'', PStr ''yaml'')]" prefix
        "PInst ''Serializer'' [(''fmt'', PStr ''yaml'')]"] example_imports(2)
    by (auto simp del: zip_Cons_Cons list.map comp_apply)
qed


lemma ObjectFactorySetting_get_present:
  "user_settings inst = PDict d \<Longrightarrow> map_of d (setting_name s) = Some v \<Longrightarrow>
   ObjectFactorySetting_get env s (Some inst) = process_item env v (name inst @ ''.'' @ setting_name s)"
  by (simp add: ObjectFactorySetting_get_def Setting_get_present)

text \<open>
  Claim C10. A tuple is processed as the list of the same elements: the result, when
  there is one, is a list of the processed elements in their positions, never a
  tuple. For data without factories every tuple at any depth becomes a list and
  nothing else changes. A raw value that is a tuple is processed in the same way.
\<close>

theorem process_item_tuple_to_list:
  "process_item env (PTuple xs) prefix = process_item env (PList xs) prefix
   \<and> (process_item env (PTuple xs) prefix = Inr r \<longrightarrow>
        (\<exists>ys. r = PList ys \<and> length ys = length xs
           \<and> (\<forall>i<length xs. process_item env (xs ! i) (prefix @ ''['' @ str_nat i @ '']'') = Inr (ys ! i))))
   \<and> (plain_data v \<longrightarrow> process_item env v prefix = Inr (tuples_to_lists v))
   \<and> (user_settings inst = PDict d \<and> map_of d (setting_name s) = Some (PTuple xs) \<longrightarrow>
        ObjectFactorySetting_get env s (Some inst)
          = process_item env (PList xs) (name inst @ ''.'' @ setting_name s))"
  using process_item_sequence [of env xs prefix r] process_item_plain_data [of v env prefix]
    ObjectFactorySetting_get_present [of inst d s "PTuple xs" env]
  by (simp add: process_item_tuple)

theorem process_item_tuple_to_list_witness:
  "process_item example_env (PTuple [PInt 1, PTuple [PStr ''a'', PDict [(''K'', PTuple [])]]]) ''CFG.X''
     = Inr (PList [PInt 1, PList [PStr ''a'', PDict [(''K'', PList [])]]])
   \<and> process_item example_env (PTuple [PInt 7, serializer_spec]) ''CFG.L''
     = Inr (PList [PInt 7, PInst ''Serializer'' [(''fmt'', PStr ''yaml'')]])
   \<and> ObjectFactorySetting_get example_env \<lparr>setting_name = ''HOSTS'', setting_default = NO_DEFAULT\<rparr>
        (Some \<lparr>name = ''CFG'', user_settings = PDict [(''HOSTS'', PTuple [PStr ''a'', PStr ''b''])]\<rparr>)
     = Inr (PList [PStr ''a'', PStr ''b''])"
proof -
  let ?v = "PTuple [PInt 1, PTuple [PStr ''a'', PDict [(''K'', PTuple [])]]]"
  have plain: "plain_data ?v" by simp
  have "plain_data ?v \<longrightarrow> process_item example_env ?v ''CFG.X'' = Inr (tuples_to_lists ?v)"
    using process_item_tuple_to_list [where env = example_env and prefix = "''CFG.X''" and v = ?v]
    by blast
  with plain have first: "process_item example_env ?v ''CFG.X''
     = Inr (PList [PInt 1, PList [PStr ''a'', PDict [(''K'', PList [])]]])"
    by simp
  have list: "process_item example_env (PList [PInt 7, serializer_spec]) ''CFG.L''
     = Inr (PList [PInt 7, PInst ''Serializer'' [(''fmt'', PStr ''yaml'')]])"
    unfolding process_item_sequence
    by (simp add: less_Suc_eq example_serializer process_item.simps)
  have "process_item example_env (PTuple [PInt 7, serializer_spec]) ''CFG.L''
     = process_item example_env (PList [PInt 7, serializer_spec]) ''CFG.L''"
    using process_item_tuple_to_list
      [where env = example_env and prefix = "''CFG.L''" and xs = "[PInt 7, serializer_spec]"]
    by blast
  with list have second: "process_item example_env (PTuple [PInt 7, serializer_spec]) ''CFG.L''
     = Inr (PList [PInt 7, PInst ''Serializer'' [(''fmt'', PStr ''yaml'')]])"
    by simp
  let ?inst = "\<lparr>name = ''CFG'', user_settings = PDict [(''HOSTS'', PTuple [PStr ''a'', PStr ''b''])]\<rparr>"
  let ?s = "\<lparr>setting_name = ''HOSTS'', setting_default = NO_DEFAULT\<rparr>"
  have "process_item example_env (PList [PStr ''a'', PStr ''b'']) ''CFG.HOSTS''
      = Inr (PList [PStr ''a'', PStr ''b''])"
    unfolding process_item_sequence by (simp add: less_Suc_eq process_item.simps)
  moreover have "user_settings ?inst = PDict [(''HOSTS'', PTuple [PStr ''a'', PStr ''b''])]
        \<and> map_of [(''HOSTS'', PTuple [PStr ''a'', PStr ''b''])] (setting_name ?s)
            = Some (PTuple [PStr ''a'', PStr ''b''])"
    by simp
  then have "ObjectFactorySetting_get example_env ?s (Some ?inst)
      = process_item example_env (PList [PStr ''a'', PStr ''b'']) (name ?inst @ ''.'' @ setting_name ?s)"
    using process_item_tuple_to_list
      [where env = example_env and xs = "[PStr ''a'', PStr ''b'']" and inst = ?inst
         and d = "[(''HOSTS'', PTuple [PStr ''a'', PStr ''b''])]" and s = ?s]
    by blast
  ultimately have third: "ObjectFactorySetting_get example_env ?s (Some ?inst)
      = Inr (PList [PStr ''a'', PStr ''b''])"
    by simp
  from first second third show ?thesis by blast
qed

lemma keys_zip:
  "length vals = length ks \<Longrightarrow> fst ` set (zip ks vals) = set ks"
  by (metis list.set_map map_fst_zip)

lemma example_missing_port:
  "process_item example_env (PDict [(''FACTORY'', PStr ''pkg.mod.make'')]) prefix
     = Inl (ImproperlyConfigured (''Required setting(s): '' @ prefix @ ''.PARAMS.PORT''))"
proof -
  have call: "call_kwargs example_env (PRef ''pkg.mod.make'') []
      = Inl (TypeError (''make() missing 1 required positional argument: '' @ quoted ''port''))"
    by code_simp
  have "search_MISSING_ARG_REGEX (''make() missing 1 required positional argument: '' @ quoted ''port'')"
    by code_simp
  moreover have "findall_ARG_NAME_REGEX (''make() missing 1 required positional argument: '' @ quoted ''port'')
      = [''port'']"
    by code_simp
  moreover have "upper ''port'' = ''PORT''" by code_simp
  ultimately have "invoke_factory example_env (PRef ''pkg.mod.make'') [] prefix
      = Inl (ImproperlyConfigured (''Required setting(s): '' @ prefix @ ''.PARAMS.PORT''))"
    by (simp add: invoke_factory_def call)
  then show ?thesis
    using example_imports(3) by (simp add: process_item.simps dict_of_items_def dict_setitems_def)
qed

text \<open>
  Claim C6, as the code has it. For a factory specification whose \<^verbatim>\<open>FACTORY\<close> imports
  and whose \<^verbatim>\<open>PARAMS\<close> is a dictionary: the value of every entry is processed with
  the prefix \<^verbatim>\<open><prefix>.PARAMS.<key>\<close>, the key as it is written in the mapping; the
  keyword arguments of the call are the processed values under the lower-cased keys
  (in the order of the entries when the lower-cased keys are distinct); and the first
  entry whose processing fails ends the processing with its exception.
\<close>

theorem process_item_PARAMS_entries:
  assumes "map_of item ''FACTORY'' = Some fpath" and "import_callable env fpath = Inr factory"
    and "map_of item ''PARAMS'' = Some (PDict params)"
  shows
   "(process_item env (PDict item) prefix = Inr r \<longrightarrow>
       (\<exists>vals kwargs.
          list_all2 (\<lambda>(k, v) v'. process_item env v (prefix @ ''.PARAMS.'' @ k) = Inr v') params vals
          \<and> kwargs = dict_of_items (zip (map (lower \<circ> fst) params) vals)
          \<and> call_kwargs env factory kwargs = Inr r
          \<and> fst ` set kwargs = lower ` fst ` set params
          \<and> (distinct (map (lower \<circ> fst) params) \<longrightarrow> kwargs = zip (map (lower \<circ> fst) params) vals)))
    \<and> (i < length params
        \<and> (\<forall>j<i. \<exists>x. process_item env (snd (params ! j)) (prefix @ ''.PARAMS.'' @ fst (params ! j)) = Inr x)
        \<and> process_item env (snd (params ! i)) (prefix @ ''.PARAMS.'' @ fst (params ! i)) = Inl e
       \<longrightarrow> process_item env (PDict item) prefix = Inl e)"
proof (intro conjI impI)
  assume "process_item env (PDict item) prefix = Inr r"
  then obtain vals where vals:
    "list_all2 (\<lambda>(k, v) v'. process_item env v (prefix @ ''.PARAMS.'' @ k) = Inr v') params vals"
    and call: "invoke_factory env factory (dict_of_items (zip (map (lower \<circ> fst) params) vals)) prefix = Inr r"
    unfolding process_item_factory_Inr [OF assms] by blast
  let ?kwargs = "dict_of_items (zip (map (lower \<circ> fst) params) vals)"
  from vals have len: "length vals = length (map (lower \<circ> fst) params)"
    by (simp add: list_all2_lengthD)
  have "fst ` set ?kwargs = fst ` set (zip (map (lower \<circ> fst) params) vals)"
    by (simp add: dict_of_items_def keys_dict_setitems)
  also have "\<dots> = set (map (lower \<circ> fst) params)"
    using len by (rule keys_zip)
  also have "\<dots> = lower ` fst ` set params"
    by (simp add: image_comp)
  finally have keys: "fst ` set ?kwargs = lower ` fst ` set params" .
  have "distinct (map (lower \<circ> fst) params) \<longrightarrow> ?kwargs = zip (map (lower \<circ> fst) params) vals"
  proof
    assume "distinct (map (lower \<circ> fst) params)"
    with len have "distinct (map fst (zip (map (lower \<circ> fst) params) vals))" by simp
    then show "?kwargs = zip (map (lower \<circ> fst) params) vals" by (rule dict_of_items_distinct)
  qed
  with vals call keys
  show "\<exists>vals kwargs.
          list_all2 (\<lambda>(k, v) v'. process_item env v (prefix @ ''.PARAMS.'' @ k) = Inr v') params vals
          \<and> kwargs = dict_of_items (zip (map (lower \<circ> fst) params) vals)
          \<and> call_kwargs env factory kwargs = Inr r
          \<and> fst ` set kwargs = lower ` fst ` set params
          \<and> (distinct (map (lower \<circ> fst) params) \<longrightarrow> kwargs = zip (map (lower \<circ> fst) params) vals)"
    unfolding invoke_factory_Inr by blast
next
  assume "i < length params
        \<and> (\<forall>j<i. \<exists>x. process_item env (snd (params ! j)) (prefix @ ''.PARAMS.'' @ fst (params ! j)) = Inr x)
        \<and> process_item env (snd (params ! i)) (prefix @ ''.PARAMS.'' @ fst (params ! i)) = Inl e"
  then show "process_item env (PDict item) prefix = Inl e"
    using process_item_factory_Inl [OF assms] by blast
qed

theorem process_item_PARAMS_entries_witness:
  "(\<exists>vals kwargs.
      list_all2 (\<lambda>(k, v) v'. process_item example_env v (''CFG.CACHE'' @ ''.PARAMS.'' @ k) = Inr v')
        [(''SERIALIZER'', serializer_spec), (''SIZE'', PInt 10)] vals
      \<and> kwargs = zip [''serializer'', ''size''] vals
      \<and> call_kwargs example_env (PRef ''pkg.mod.Cache'') kwargs
          = Inr (PInst ''Cache'' [(''serializer'', PInst ''Serializer'' [(''fmt'', PStr ''yaml'')]),
                                 (''size'', PInt 10)]))
   \<and> process_item example_env broken_cache_spec ''CFG.CACHE''
       = Inl (ImproperlyConfigured ''Required setting(s): CFG.CACHE.PARAMS.serializer.PARAMS.PORT'')"
proof -
  let ?item = "[(''FACTORY'', PStr ''pkg.mod.Cache''),
            (''PARAMS'', PDict [(''SERIALIZER'', serializer_spec), (''SIZE'', PInt 10)])]"
  let ?params = "[(''SERIALIZER'', serializer_spec), (''SIZE'', PInt 10)]"
  let ?obj = "PInst ''Cache'' [(''serializer'', PInst ''Serializer'' [(''fmt'', PStr ''yaml'')]),
                            (''size'', PInt 10)]"
  have f: "map_of ?item ''FACTORY'' = Some (PStr ''pkg.mod.Cache'')"
    and p: "map_of ?item ''PARAMS'' = Some (PDict ?params)"
    by simp_all
  have res: "process_item example_env (PDict ?item) ''CFG.CACHE'' = Inr ?obj"
    unfolding serializer_spec_def by code_simp
  have low: "map (lower \<circ> fst) ?params = [''serializer'', ''size'']"
    by code_simp
  have "\<exists>vals kwargs.
          list_all2 (\<lambda>(k, v) v'. process_item example_env v (''CFG.CACHE'' @ ''.PARAMS.'' @ k) = Inr v') ?params vals
          \<and> kwargs = dict_of_items (zip (map (lower \<circ> fst) ?params) vals)
          \<and> call_kwargs example_env (PRef ''pkg.mod.Cache'') kwargs = Inr ?obj
          \<and> fst ` set kwargs = lower ` fst ` set ?params
          \<and> (distinct (map (lower \<circ> fst) ?params) \<longrightarrow> kwargs = zip (map (lower \<circ> fst) ?params) vals)"
    using process_item_PARAMS_entries [OF f example_imports(1) p, where prefix = "''CFG.CACHE''" and r = ?obj] res
    by blast
  then have first: "\<exists>vals kwargs.
      list_all2 (\<lambda>(k, v) v'. process_item example_env v (''CFG.CACHE'' @ ''.PARAMS.'' @ k) = Inr v') ?params vals
      \<and> kwargs = zip [''serializer'', ''size''] vals
      \<and> call_kwargs example_env (PRef ''pkg.mod.Cache'') kwargs = Inr ?obj"
    unfolding low by auto
  let ?bitem = "[(''FACTORY'', PStr ''pkg.mod.Cache''),
            (''PARAMS'', PDict [(''serializer'', PDict [(''FACTORY'', PStr ''pkg.mod.make'')])])]"
  let ?bparams = "[(''serializer'', PDict [(''FACTORY'', PStr ''pkg.mod.make'')])]"
  have bf: "map_of ?bitem ''FACTORY'' = Some (PStr ''pkg.mod.Cache'')"
    and bp: "map_of ?bitem ''PARAMS'' = Some (PDict ?bparams)"
    by simp_all
  have inner: "process_item example_env (snd (?bparams ! 0)) (''CFG.CACHE'' @ ''.PARAMS.'' @ fst (?bparams ! 0))
      = Inl (ImproperlyConfigured ''Required setting(s): CFG.CACHE.PARAMS.serializer.PARAMS.PORT'')"
    by (simp add: example_missing_port)
  have second: "process_item example_env broken_cache_spec ''CFG.CACHE''
       = Inl (ImproperlyConfigured ''Required setting(s): CFG.CACHE.PARAMS.serializer.PARAMS.PORT'')"
    unfolding broken_cache_spec_def
    using process_item_PARAMS_entries [OF bf example_imports(1) bp, where i = 0 and prefix = "''CFG.CACHE''"] inner
    by simp
  from first second show ?thesis by blast
qed

text \<open>
  The key is not upper-cased in the path: with the key \<^verbatim>\<open>serializer\<close>, the error that
  the nested factory raises names \<^verbatim>\<open>CFG.CACHE.PARAMS.serializer.PARAMS.PORT\<close>. (The name
  \<^verbatim>\<open>PORT\<close> is upper-cased by the handler of the call.)
\<close>

theorem process_item_PARAMS_key_verbatim_counterexample:
  "process_item example_env broken_cache_spec ''CFG.CACHE''
     = Inl (ImproperlyConfigured ''Required setting(s): CFG.CACHE.PARAMS.serializer.PARAMS.PORT'')
   \<and> process_item example_env broken_cache_spec ''CFG.CACHE''
     \<noteq> Inl (ImproperlyConfigured ''Required setting(s): CFG.CACHE.PARAMS.SERIALIZER.PARAMS.PORT'')"
  by code_simp

subsection \<open>The handler of the factory call on the interpreter's messages\<close>

text \<open>
  For a factory defined with \<^verbatim>\<open>def\<close>, the three outcomes of the handler: the missing
  arguments are all listed; an unexpected keyword that is a word is named; an
  unexpected keyword that is not a word (and has no quote or space in it) leaves
  \<^verbatim>\<open>re.search\<close> without a match. Any other exception, and a \<open>TypeError\<close> whose message
  has neither form, is raised as it is.
\<close>

lemma quote_not_word: "\<not> is_word_char (CHR 0x27)"
  by (simp add: is_word_char_def is_lower_def is_upper_def is_digit_def)

lemma space_not_word: "\<not> is_word_char (CHR '' '')"
  by (simp add: is_word_char_def is_lower_def is_upper_def is_digit_def)

lemma space_not_digit: "\<not> is_digit (CHR '' '')"
  by (simp add: is_digit_def)

lemma is_digit_digit_char: "d < 10 \<Longrightarrow> is_digit (digit_char d)"
  by (simp add: is_digit_def digit_char_def)

lemma digit_char_not_quote: "d < 10 \<Longrightarrow> digit_char d \<noteq> CHR 0x27"
  using is_digit_digit_char [of d] by (auto simp: is_digit_def)

lemma str_nat_digits: "\<forall>c \<in> set (str_nat n). is_digit c"
proof (induction n rule: str_nat.induct)
  case (1 n)
  show ?case
  proof (cases "n < 10")
    case True
    then show ?thesis by (simp add: str_nat.simps [of n] is_digit_digit_char)
  next
    case False
    with 1 have "\<forall>c \<in> set (str_nat (n div 10)). is_digit c" by simp
    with False show ?thesis by (simp add: str_nat.simps [of n] is_digit_digit_char)
  qed
qed

lemma str_nat_not_Nil: "str_nat n \<noteq> []"
  by (simp add: str_nat.simps [of n])

lemma findall_skip:
  "CHR 0x27 \<notin> set a \<Longrightarrow> findall_ARG_NAME_REGEX (a @ s) = findall_ARG_NAME_REGEX s"
  by (induction a) auto

lemma takeWhile_word: "is_word w \<Longrightarrow> takeWhile is_word_char (w @ CHR 0x27 # s) = w"
  by (simp add: is_word_def takeWhile_append2 quote_not_word)

lemma dropWhile_word: "is_word w \<Longrightarrow> dropWhile is_word_char (w @ CHR 0x27 # s) = CHR 0x27 # s"
  by (simp add: is_word_def dropWhile_append2 quote_not_word)

lemma findall_quoted:
  "is_word w \<Longrightarrow> findall_ARG_NAME_REGEX (quoted w @ s) = w # findall_ARG_NAME_REGEX s"
  by (simp add: quoted_def takeWhile_word dropWhile_word starts_with_def) (simp add: is_word_def)

lemma findall_join_quoted:
  "\<forall>w \<in> set ws. is_word w \<Longrightarrow>
   findall_ARG_NAME_REGEX (join '', '' (map quoted ws) @ s) = ws @ findall_ARG_NAME_REGEX s"
proof (induction ws)
  case Nil
  show ?case by simp
next
  case (Cons w ws)
  show ?case
  proof (cases ws)
    case Nil
    with Cons.prems show ?thesis by (simp add: findall_quoted)
  next
    case (Cons w' ws')
    have "join '', '' (map quoted (w # ws)) @ s = quoted w @ ('', '' @ (join '', '' (map quoted ws) @ s))"
      by (simp add: Cons)
    moreover have "findall_ARG_NAME_REGEX ('', '' @ (join '', '' (map quoted ws) @ s))
        = findall_ARG_NAME_REGEX (join '', '' (map quoted ws) @ s)"
      by (rule findall_skip) simp
    ultimately show ?thesis using Cons.prems Cons.IH by (simp add: findall_quoted)
  qed
qed

lemma findall_format_missing:
  assumes "\<forall>w \<in> set ws. is_word w"
  shows "findall_ARG_NAME_REGEX (format_missing ws) = ws"
proof (cases ws rule: format_missing.cases)
  case 1
  then show ?thesis by simp
next
  case (2 a)
  with assms show ?thesis using findall_quoted [of a "[]"] by simp
next
  case (3 a b)
  have "findall_ARG_NAME_REGEX (quoted a @ ('' and '' @ (quoted b @ []))) = [a, b]"
    using assms 3 by (simp add: findall_quoted findall_skip del: append_Nil2)
  with 3 show ?thesis by simp
next
  case (4 a b c ds)
  let ?init = "butlast ws" and ?l = "last ws"
  have ws: "ws = ?init @ [?l]" using 4 by (simp del: butlast.simps last.simps)
  have w: "\<forall>w \<in> set ?init. is_word w" "is_word ?l"
    using assms ws by (metis in_set_butlastD, metis 4 assms last_in_set list.distinct(1))
  have "findall_ARG_NAME_REGEX (join '', '' (map quoted ?init) @ ('', and '' @ (quoted ?l @ [])))
      = ?init @ [?l]"
    using w by (simp add: findall_join_quoted findall_skip findall_quoted del: append_Nil2)
  moreover have "format_missing ws = join '', '' (map quoted ?init) @ '', and '' @ quoted ?l"
    using 4 by simp
  ultimately show ?thesis using ws by simp
qed

lemma search_append: "search_MISSING_ARG_REGEX b \<Longrightarrow> search_MISSING_ARG_REGEX (a @ b)"
  by (induction a) auto

lemma search_match: "match_MISSING_ARG_REGEX b \<Longrightarrow> search_MISSING_ARG_REGEX b"
  by (cases b) auto

lemma match_missing_message:
  "match_MISSING_ARG_REGEX (''missing '' @ str_nat n @ '' required positional argument''
      @ (if single then [] else ''s'') @ '': '' @ rest)"
proof -
  let ?tail = "'' required positional argument'' @ (if single then [] else ''s'') @ '': '' @ rest"
  have t: "takeWhile is_digit (str_nat n @ ?tail) = str_nat n"
    using str_nat_digits [of n] by (simp add: takeWhile_append2 space_not_digit)
  have d: "dropWhile is_digit (str_nat n @ ?tail) = ?tail"
    using str_nat_digits [of n] by (simp add: dropWhile_append2 space_not_digit)
  have s: "strip_prefix ''missing '' (''missing '' @ str_nat n @ ?tail) = Some (str_nat n @ ?tail)"
    by (simp add: strip_prefix_def starts_with_def)
  have s': "strip_prefix '' required positional argument'' ?tail
      = Some ((if single then [] else ''s'') @ '': '' @ rest)"
    by (simp add: strip_prefix_def starts_with_def)
  show ?thesis
    unfolding match_MISSING_ARG_REGEX_def s option.case t d s'
    by (simp add: str_nat_not_Nil starts_with_def)
qed


lemma contains_pair:
  "contains [x, y] s \<longleftrightarrow> (x, y) \<in> set (zip s (tl s))"
proof (induction s)
  case Nil
  show ?case by simp
next
  case (Cons c cs)
  show ?case
  proof (cases cs)
    case Nil
    then show ?thesis by (simp add: starts_with_def)
  next
    case (Cons c' cs')
    with Cons.IH show ?thesis by (auto simp: starts_with_def)
  qed
qed

lemma zip_tl_append:
  "set (zip (a @ b) (tl (a @ b))) =
     set (zip a (tl a)) \<union> (if a \<noteq> [] \<and> b \<noteq> [] then {(last a, hd b)} else {}) \<union> set (zip b (tl b))"
proof (induction a)
  case Nil
  show ?case by simp
next
  case (Cons c a)
  show ?case
  proof (cases a)
    case Nil
    then show ?thesis by (cases b) auto
  next
    case (Cons c' a')
    with Cons.IH show ?thesis by auto
  qed
qed

lemma search_missing_g_space:
  "search_MISSING_ARG_REGEX s \<Longrightarrow> (CHR ''g'', CHR '' '') \<in> set (zip s (tl s))"
proof (induction s)
  case Nil
  then show ?case by (simp add: match_MISSING_ARG_REGEX_def strip_prefix_def starts_with_def)
next
  case (Cons c cs)
  show ?case
  proof (cases "match_MISSING_ARG_REGEX (c # cs)")
    case True
    then have "starts_with ''missing '' (c # cs)"
      by (auto simp: match_MISSING_ARG_REGEX_def strip_prefix_def split: if_splits)
    then have "take (length ''missing '') (c # cs) = ''missing ''"
      by (simp only: starts_with_def)
    then have "c # cs = ''missing '' @ drop (length ''missing '') (c # cs)"
      by (metis append_take_drop_id)
    moreover have "''missing '' = ''missin'' @ ''g ''" by simp
    ultimately have "c # cs = ''missin'' @ ''g '' @ drop (length ''missing '') (c # cs)"
      by (metis append_assoc)
    then have "contains ''g '' (c # cs)"
      using contains_append [of "''g ''" "''missin''" "drop (length ''missing '') (c # cs)"] by simp
    then show ?thesis by (simp only: contains_pair)
  next
    case False
    with Cons.prems have "search_MISSING_ARG_REGEX cs" by simp
    then have "(CHR ''g'', CHR '' '') \<in> set (zip cs (tl cs))" by (rule Cons.IH)
    then show ?thesis by (cases cs) auto
  qed
qed


lemma str_nat_no_quote: "CHR 0x27 \<notin> set (str_nat n)"
  using str_nat_digits [of n] by (auto simp: is_digit_def)

lemma missing_args_words:
  "well_named f \<Longrightarrow> \<forall>w \<in> set (missing_args f kwargs). is_word w"
  by (auto simp: well_named_def missing_args_def)

lemma invoke_factory_missing_arguments:
  assumes call: "call_kwargs env factory kwargs = def_call f kwargs"
    and wf: "well_named f"
    and unexpected: "unexpected_args f kwargs = []"
    and missing: "missing_args f kwargs = m # ms"
  shows "invoke_factory env factory kwargs prefix =
     Inl (ImproperlyConfigured (''Required setting(s): '' @
       join '', '' (map (\<lambda>n. prefix @ ''.PARAMS.'' @ upper n) (m # ms))))"
proof -
  let ?head = "def_name f @ ''() ''"
  let ?mid = "''missing '' @ str_nat (length (m # ms)) @ '' required positional argument''
      @ (if ms = [] then [] else ''s'') @ '': ''"
  let ?message = "?head @ ?mid @ format_missing (m # ms)"
  have msg: "def_call f kwargs = Inl (TypeError ?message)"
    using unexpected missing by (simp add: def_call_def)
  have "match_MISSING_ARG_REGEX (?mid @ format_missing (m # ms))"
    using match_missing_message [of "length (m # ms)" "ms = []" "format_missing (m # ms)"] by simp
  then have search: "search_MISSING_ARG_REGEX ?message"
    by (intro search_append search_match)
  have "CHR 0x27 \<notin> set (?head @ ?mid)"
    using wf by (auto simp: well_named_def str_nat_no_quote)
  then have "findall_ARG_NAME_REGEX ((?head @ ?mid) @ format_missing (m # ms))
      = findall_ARG_NAME_REGEX (format_missing (m # ms))"
    by (rule findall_skip)
  also have "\<dots> = m # ms"
    using missing_args_words [OF wf, of kwargs] missing by (intro findall_format_missing) simp
  finally have names: "findall_ARG_NAME_REGEX ?message = m # ms" by simp
  show ?thesis
    unfolding invoke_factory_def call msg using search names by simp
qed

lemma unexpected_message_no_match:
  assumes "CHR '' '' \<notin> set nm" and "CHR '' '' \<notin> set k"
  shows "\<not> search_MISSING_ARG_REGEX (nm @ ''() got an unexpected keyword argument '' @ quoted k)"
proof
  let ?mid = "''() got an unexpected keyword argument ''"
  assume "search_MISSING_ARG_REGEX (nm @ ?mid @ quoted k)"
  then have "(CHR ''g'', CHR '' '') \<in> set (zip (nm @ ?mid @ quoted k) (tl (nm @ ?mid @ quoted k)))"
    by (rule search_missing_g_space)
  then consider "(CHR ''g'', CHR '' '') \<in> set (zip nm (tl nm))"
    | "CHR '' '' = hd (?mid @ quoted k)"
    | "(CHR ''g'', CHR '' '') \<in> set (zip (?mid @ quoted k) (tl (?mid @ quoted k)))"
    unfolding zip_tl_append [of nm] by (auto split: if_splits)
  then show False
  proof cases
    case 1
    then have "CHR '' '' \<in> set (tl nm)" by (rule set_zip_rightD)
    then have "CHR '' '' \<in> set nm" by (cases nm) auto
    with assms(1) show False by simp
  next
    case 2
    then show False by simp
  next
    case 3
    then consider "(CHR ''g'', CHR '' '') \<in> set (zip ?mid (tl ?mid))"
      | "(CHR ''g'', CHR '' '') = (last ?mid, hd (quoted k))"
      | "(CHR ''g'', CHR '' '') \<in> set (zip (quoted k) (tl (quoted k)))"
      unfolding zip_tl_append [of ?mid] by (auto split: if_splits)
    then show False
    proof cases
      case 1
      then show False by simp
    next
      case 2
      then show False by simp
    next
      case 3
      then have "CHR '' '' \<in> set (tl (quoted k))" by (rule set_zip_rightD)
      then have "CHR '' '' \<in> set k \<or> CHR '' '' = CHR 0x27" by (auto simp: quoted_def)
      with assms(2) show False by simp
    qed
  qed
qed

lemma invoke_factory_unexpected_keyword:
  assumes call: "call_kwargs env factory kwargs = def_call f kwargs"
    and wf: "well_named f"
    and unexpected: "unexpected_args f kwargs = k # ks"
    and word: "is_word k"
  shows "invoke_factory env factory kwargs prefix =
     Inl (ImproperlyConfigured (''Invalid setting: '' @ prefix @ ''.PARAMS.'' @ upper k))"
proof -
  let ?message = "def_name f @ ''() got an unexpected keyword argument '' @ quoted k"
  have msg: "def_call f kwargs = Inl (TypeError ?message)"
    using unexpected by (simp add: def_call_def)
  have no: "\<not> search_MISSING_ARG_REGEX ?message"
    using wf word by (intro unexpected_message_no_match) (auto simp: well_named_def is_word_def space_not_word)
  have "contains INVALID_ARG_MATCH ((def_name f @ ''() '') @ INVALID_ARG_MATCH @ ('' '' @ quoted k))"
    by (rule contains_append)
  then have inv: "contains INVALID_ARG_MATCH ?message"
    by (simp add: INVALID_ARG_MATCH_def)
  have "CHR 0x27 \<notin> set (def_name f @ ''() got an unexpected keyword argument '')"
    using wf by (auto simp: well_named_def)
  then have "findall_ARG_NAME_REGEX ((def_name f @ ''() got an unexpected keyword argument '') @ quoted k @ [])
      = findall_ARG_NAME_REGEX (quoted k @ [])"
    by (rule findall_skip)
  also have "\<dots> = [k]"
    using findall_quoted [OF word, of "[]"] by simp
  finally have "search_ARG_NAME_REGEX ?message = Some k"
    by (simp add: search_ARG_NAME_REGEX_def)
  with no inv show ?thesis
    unfolding invoke_factory_def call msg by simp
qed

lemma invoke_factory_other_failure:
  assumes "call_kwargs env factory kwargs = Inl e"
    and "\<And>message. e = TypeError message \<Longrightarrow>
           \<not> search_MISSING_ARG_REGEX message \<and> \<not> contains INVALID_ARG_MATCH message"
  shows "invoke_factory env factory kwargs prefix = Inl e"
  using assms by (cases e) (auto simp: invoke_factory_def)

lemma findall_no_word:
  assumes "CHR 0x27 \<notin> set k" and "\<not> is_word k"
  shows "findall_ARG_NAME_REGEX (quoted k) = []"
proof -
  have first: "\<not> (takeWhile is_word_char (k @ [CHR 0x27]) \<noteq> []
      \<and> starts_with [CHR 0x27] (dropWhile is_word_char (k @ [CHR 0x27])))"
  proof (cases "k = []")
    case True
    then show ?thesis by (simp add: quote_not_word)
  next
    case False
    with assms(2) obtain c where c: "c \<in> set k" "\<not> is_word_char c"
      by (auto simp: is_word_def)
    then have d: "dropWhile is_word_char (k @ [CHR 0x27]) = dropWhile is_word_char k @ [CHR 0x27]"
      by (simp add: dropWhile_append1)
    from c have "dropWhile is_word_char k \<noteq> []" by auto
    then have "hd (dropWhile is_word_char k) \<in> set k"
      by (metis hd_in_set set_dropWhileD)
    with assms(1) have "hd (dropWhile is_word_char k) \<noteq> CHR 0x27" by auto
    with \<open>dropWhile is_word_char k \<noteq> []\<close> show ?thesis
      unfolding d by (cases "dropWhile is_word_char k") (auto simp: starts_with_def)
  qed
  have "findall_ARG_NAME_REGEX (quoted k) = findall_ARG_NAME_REGEX (k @ [CHR 0x27])"
    using first by (auto simp: quoted_def)
  also have "\<dots> = findall_ARG_NAME_REGEX [CHR 0x27]"
    using assms(1) by (rule findall_skip)
  also have "\<dots> = []" by simp
  finally show ?thesis .
qed

lemma invoke_factory_unexpected_keyword_no_word:
  assumes call: "call_kwargs env factory kwargs = def_call f kwargs"
    and wf: "well_named f"
    and unexpected: "unexpected_args f kwargs = k # ks"
    and k: "CHR '' '' \<notin> set k" "CHR 0x27 \<notin> set k" "\<not> is_word k"
  shows "invoke_factory env factory kwargs prefix =
     Inl (AttributeError (quoted ''NoneType'' @ '' object has no attribute '' @ quoted ''group''))"
proof -
  let ?message = "def_name f @ ''() got an unexpected keyword argument '' @ quoted k"
  have msg: "def_call f kwargs = Inl (TypeError ?message)"
    using unexpected by (simp add: def_call_def)
  have no: "\<not> search_MISSING_ARG_REGEX ?message"
    using wf k(1) by (intro unexpected_message_no_match) (simp_all add: well_named_def)
  have "contains INVALID_ARG_MATCH ((def_name f @ ''() '') @ INVALID_ARG_MATCH @ ('' '' @ quoted k))"
    by (rule contains_append)
  then have inv: "contains INVALID_ARG_MATCH ?message"
    by (simp add: INVALID_ARG_MATCH_def)
  have "CHR 0x27 \<notin> set (def_name f @ ''() got an unexpected keyword argument '')"
    using wf by (auto simp: well_named_def)
  then have "findall_ARG_NAME_REGEX ((def_name f @ ''() got an unexpected keyword argument '') @ quoted k)
      = findall_ARG_NAME_REGEX (quoted k)"
    by (rule findall_skip)
  also have "\<dots> = []"
    using k(2,3) by (rule findall_no_word)
  finally have "search_ARG_NAME_REGEX ?message = None"
    by (simp add: search_ARG_NAME_REGEX_def)
  with no inv show ?thesis
    unfolding invoke_factory_def call msg by simp
qed

text \<open>
  Claim C2 at a keyword that is no word. The parameter key \<^verbatim>\<open>MY-PARAM\<close> becomes the
  keyword \<^verbatim>\<open>my-param\<close>, which \<^verbatim>\<open>Serializer\<close> does not take. The message of the
  \<open>TypeError\<close> contains \<^verbatim>\<open>got an unexpected keyword argument\<close>, but \<^verbatim>\<open>ARG_NAME_REGEX\<close>
  finds no quoted word in it, and \<^verbatim>\<open>match.group(1)\<close> on the missing match raises
  \<open>AttributeError\<close>: no \<open>ImproperlyConfigured\<close> naming \<^verbatim>\<open>CFG.S.PARAMS.MY-PARAM\<close> is
  raised.
\<close>

theorem process_item_unexpected_keyword_not_a_word:
  "call_kwargs example_env (PRef ''pkg.mod.Serializer'') [(''my-param'', PInt 1)]
     = Inl (TypeError (''Serializer() got an unexpected keyword argument '' @ quoted ''my-param''))
   \<and> process_item example_env hyphen_spec ''CFG.S''
     = Inl (AttributeError (quoted ''NoneType'' @ '' object has no attribute '' @ quoted ''group''))"
  by code_simp

section \<open>Accesses and the dictionaries they read\<close>






end
